theory Spec2Isabelle
  imports Main "HOL-Library.AList" "HOL-Library.Char_ord" "HOL-Library.List_Lexorder"
begin

section \<open>Library functions used by pkg/docker/config/config.go\<close>

text \<open>
  Go strings are byte sequences; they are modelled as \<open>string\<close> (a list of 8-bit
  characters). The separators searched for by the code (\<open>/\<close>, \<open>:\<close>, \<open>@\<close>, NUL) are
  ASCII, and an ASCII byte never occurs inside a multi-byte UTF-8 sequence, so searching
  bytes agrees with searching runes.
\<close>

subsection \<open>Package strings\<close>

definition HasPrefix :: "string \<Rightarrow> string \<Rightarrow> bool" where
  "HasPrefix s pre = (take (length pre) s = pre)"

definition TrimPrefix :: "string \<Rightarrow> string \<Rightarrow> string" where
  "TrimPrefix s pre = (if HasPrefix s pre then drop (length pre) s else s)"

text \<open>\<open>strings.IndexRune\<close> for an ASCII rune; \<open>None\<close> stands for the result \<open>-1\<close>.\<close>

fun IndexRune :: "string \<Rightarrow> char \<Rightarrow> nat option" where
  "IndexRune [] c = None"
| "IndexRune (x # xs) c =
     (if x = c then Some 0 else map_option Suc (IndexRune xs c))"

definition ContainsRune :: "string \<Rightarrow> char \<Rightarrow> bool" where
  "ContainsRune s c = (IndexRune s c \<noteq> None)"

text \<open>\<open>strings.LastIndex\<close> with a one-byte separator.\<close>

fun LastIndex :: "string \<Rightarrow> char \<Rightarrow> nat option" where
  "LastIndex [] c = None"
| "LastIndex (x # xs) c =
     (case LastIndex xs c of
        Some i \<Rightarrow> Some (Suc i)
      | None \<Rightarrow> (if x = c then Some 0 else None))"

text \<open>\<open>strings.Cut\<close> with a one-byte separator: before, after, found.\<close>

definition Cut :: "string \<Rightarrow> char \<Rightarrow> string \<times> string \<times> bool" where
  "Cut s sep =
     (case IndexRune s sep of
        Some i \<Rightarrow> (take i s, drop (i + 1) s, True)
      | None \<Rightarrow> (s, [], False))"

text \<open>\<open>strings.Trim\<close>: all leading and all trailing bytes of the cutset are removed.\<close>

definition TrimLeft :: "string \<Rightarrow> string \<Rightarrow> string" where
  "TrimLeft s cutset = dropWhile (\<lambda>c. c \<in> set cutset) s"

definition TrimRight :: "string \<Rightarrow> string \<Rightarrow> string" where
  "TrimRight s cutset = rev (dropWhile (\<lambda>c. c \<in> set cutset) (rev s))"

definition Trim :: "string \<Rightarrow> string \<Rightarrow> string" where
  "Trim s cutset = TrimRight (TrimLeft s cutset) cutset"

definition NUL :: char where
  "NUL = CHR 0x00"

subsection \<open>Package unicode/utf8\<close>

text \<open>
  \<open>runeWidth s\<close> is the number of bytes of the well-formed UTF-8 sequence that \<open>s\<close>
  begins with, as \<open>utf8.DecodeRuneInString\<close> finds it, and \<open>0\<close> when \<open>s\<close> is empty or
  begins with no such sequence (the decoder then returns \<open>RuneError\<close> with size 1, or 0
  for the empty string). The ranges are those of the table \<open>acceptRanges\<close>: overlong
  forms, surrogates and values above U+10FFFF are not well formed.
\<close>

definition inRange :: "nat \<Rightarrow> nat \<Rightarrow> char \<Rightarrow> bool" where
  "inRange lo hi c = (lo \<le> of_char c \<and> of_char c \<le> hi)"

fun runeWidth :: "string \<Rightarrow> nat" where
  "runeWidth [] = 0"
| "runeWidth (a # r) =
     (let x = (of_char a :: nat)
      in if x < 0x80 then 1
         else if 0xC2 \<le> x \<and> x \<le> 0xDF then
           (case r of
              b # r' \<Rightarrow> (if inRange 0x80 0xBF b then 2 else 0)
            | _ \<Rightarrow> 0)
         else if 0xE0 \<le> x \<and> x \<le> 0xEF then
           (case r of
              b # c # r' \<Rightarrow>
                (if inRange (if x = 0xE0 then 0xA0 else 0x80)
                            (if x = 0xED then 0x9F else 0xBF) b
                    \<and> inRange 0x80 0xBF c
                 then 3 else 0)
            | _ \<Rightarrow> 0)
         else if 0xF0 \<le> x \<and> x \<le> 0xF4 then
           (case r of
              b # c # d # r' \<Rightarrow>
                (if inRange (if x = 0xF0 then 0x90 else 0x80)
                            (if x = 0xF4 then 0x8F else 0xBF) b
                    \<and> inRange 0x80 0xBF c \<and> inRange 0x80 0xBF d
                 then 4 else 0)
            | _ \<Rightarrow> 0)
         else 0)"

text \<open>\<open>utf8.ValidString\<close>.\<close>

function ValidString :: "string \<Rightarrow> bool" where
  "ValidString [] = True"
| "ValidString (a # r) =
     (if runeWidth (a # r) = 0 then False
      else ValidString (drop (runeWidth (a # r)) (a # r)))"
  by pat_completeness auto
termination
  by (relation "measure length") auto

text \<open>The UTF-8 encoding of U+FFFD, the replacement character \<open>utf8.RuneError\<close>.\<close>

definition RuneError :: string where
  "RuneError = [CHR 0xEF, CHR 0xBF, CHR 0xBD]"

text \<open>
  What package encoding/json makes of a string, writing it (\<open>appendString\<close>) as well
  as reading it (\<open>unquoteBytes\<close>): each byte that begins no well-formed sequence is
  replaced by U+FFFD, everything else is kept.
\<close>

function replaceInvalidUTF8 :: "string \<Rightarrow> string" where
  "replaceInvalidUTF8 [] = []"
| "replaceInvalidUTF8 (a # r) =
     (if runeWidth (a # r) = 0 then RuneError @ replaceInvalidUTF8 r
      else take (runeWidth (a # r)) (a # r)
             @ replaceInvalidUTF8 (drop (runeWidth (a # r)) (a # r)))"
  by pat_completeness auto
termination
  by (relation "measure length") auto

subsection \<open>Package encoding/base64, \<open>StdEncoding\<close>\<close>

definition encodeStd :: string where
  "encodeStd = ''ABCDEFGHIJKLMNOPQRSTUVWXYZabcdefghijklmnopqrstuvwxyz0123456789+/''"

definition enc6 :: "nat \<Rightarrow> char" where
  "enc6 n = encodeStd ! (n mod 64)"

definition dec6 :: "char \<Rightarrow> nat option" where
  "dec6 c = IndexRune encodeStd c"

text \<open>
  \<open>EncodeToString\<close>: three bytes make a 24-bit value that is written as four 6-bit
  digits; a remainder of one or two bytes is padded with \<open>=\<close>.
\<close>

fun EncodeToString :: "string \<Rightarrow> string" where
  "EncodeToString (a # b # c # rest) =
     (let val = of_char a * 65536 + of_char b * 256 + of_char c
      in enc6 (val div 262144) # enc6 (val div 4096) # enc6 (val div 64) # enc6 val
           # EncodeToString rest)"
| "EncodeToString [a, b] =
     (let val = of_char a * 65536 + of_char b * 256
      in [enc6 (val div 262144), enc6 (val div 4096), enc6 (val div 64), CHR ''=''])"
| "EncodeToString [a] =
     (let val = of_char a * 65536
      in [enc6 (val div 262144), enc6 (val div 4096), CHR ''='', CHR ''=''])"
| "EncodeToString [] = []"

text \<open>
  \<open>DecodeString\<close>: carriage returns and line feeds are skipped, the rest is read in
  quanta of four digits; only the last quantum may end in one or two \<open>=\<close>. Any other
  byte, a short quantum or data after the padding is a \<open>CorruptInputError\<close> (\<open>None\<close>).
  The unused low bits of a padded quantum are not checked (the encoding is not strict).
\<close>

fun decodeQuanta :: "string \<Rightarrow> string option" where
  "decodeQuanta [] = Some []"
| "decodeQuanta (a # b # c # d # rest) =
     (case (dec6 a, dec6 b) of
        (Some i, Some j) \<Rightarrow>
          (if rest = [] \<and> d = CHR ''='' \<and> c = CHR ''='' then
             Some [char_of ((i * 262144 + j * 4096) div 65536)]
           else (case dec6 c of
             None \<Rightarrow> None
           | Some k \<Rightarrow>
               (if rest = [] \<and> d = CHR ''='' then
                  (let val = i * 262144 + j * 4096 + k * 64
                   in Some [char_of (val div 65536), char_of (val div 256)])
                else (case dec6 d of
                  None \<Rightarrow> None
                | Some l \<Rightarrow>
                    (let val = i * 262144 + j * 4096 + k * 64 + l
                     in map_option
                          (\<lambda>out. char_of (val div 65536) # char_of (val div 256)
                                    # char_of val # out)
                          (decodeQuanta rest))))))
      | _ \<Rightarrow> None)"
| "decodeQuanta _ = None"

definition DecodeString :: "string \<Rightarrow> string option" where
  "DecodeString s =
     decodeQuanta (filter (\<lambda>c. c \<noteq> CHR 0x0A \<and> c \<noteq> CHR 0x0D) s)"

section \<open>Errors\<close>

text \<open>
  Every error value the modelled functions can return. \<open>InvalidKey\<close> carries which of
  the three checks of \<open>validateKey\<close> rejected the key; \<open>Wrapped\<close> is \<open>fmt.Errorf\<close> with
  \<open>%w\<close> (the string names the message), \<open>WrappedNil\<close> is the same call given a nil
  error; \<open>Multi\<close> is a \<open>*multierror.Error\<close>; \<open>Panic\<close> is an assignment to an entry
  of a nil map.
\<close>

datatype key_defect = SchemePrefix | AtCharacter | ColonAfterHost

datatype helper_err =
    ErrExecNotFound
  | ErrCredentialsNotFound
  | ErrHelperOther string

datatype error =
    InvalidKey key_defect string
  | NamespaceUnsupported string
  | LegacyWriteUnsupported string
  | RuntimeDirMissing string
  | ReadFileError string
  | MkdirError string
  | WriteFileError string
  | JSONSyntaxError
  | CorruptInputError
  | HelperError helper_err
  | CredentialHelpersError
  | ErrNotLoggedIn
  | Panic
  | Wrapped string error
  | WrappedNil string
  | Multi "error list"

section \<open>Keys\<close>

definition validateKey :: "string \<Rightarrow> error + bool" where
  "validateKey key =
     (if HasPrefix key ''http://'' \<or> HasPrefix key ''https://'' then
        Inl (InvalidKey SchemePrefix key)
      else if ContainsRune key CHR ''@'' then
        Inl (InvalidKey AtCharacter key)
      else
        (case IndexRune key CHR ''/'' of
           None \<Rightarrow> Inr False
         | Some firstSlash \<Rightarrow>
             (if ContainsRune (drop (firstSlash + 1) key) CHR '':'' then
                Inl (InvalidKey ColonAfterHost key)
              else Inr True)))"

definition normalizeRegistry :: "string \<Rightarrow> string" where
  "normalizeRegistry registry =
     (if registry = ''registry-1.docker.io'' \<or> registry = ''docker.io''
      then ''index.docker.io'' else registry)"

definition normalizeAuthFileKey :: "string \<Rightarrow> bool \<Rightarrow> string" where
  "normalizeAuthFileKey key legacyFormat =
     (let stripped = TrimPrefix (TrimPrefix key ''http://'') ''https://'';
          stripped' = (if legacyFormat \<or> stripped \<noteq> key
                       then fst (Cut stripped CHR ''/'') else stripped)
      in normalizeRegistry stripped')"

text \<open>The registry of a key, as \<open>getCredentialsWithHomeDir\<close> computes it.\<close>

definition registryOf :: "string \<Rightarrow> string" where
  "registryOf key =
     (case IndexRune key CHR ''/'' of
        Some firstSlash \<Rightarrow> take firstSlash key
      | None \<Rightarrow> key)"


function authKeysForKey :: "string \<Rightarrow> string list" where
  "authKeysForKey key =
     key # (case LastIndex key CHR ''/'' of
              None \<Rightarrow> []
            | Some lastSlash \<Rightarrow> authKeysForKey (take lastSlash key))"
  by pat_completeness auto
termination
proof (relation "measure length")
  show "wf (measure length)" by simp
next
  fix key :: string and lastSlash :: nat
  assume found: "LastIndex key CHR ''/'' = Some lastSlash"
  have "LastIndex s c = Some i \<Longrightarrow> i < length s" for s :: string and c i
    by (induction s arbitrary: i) (auto split: option.splits if_splits)
  from this [OF found] show "(take lastSlash key, key) \<in> measure length"
    by simp
qed

section \<open>Credentials and auth files\<close>

text \<open>\<open>types.DockerAuthConfig\<close>, the credential record handed to callers.\<close>

record DockerAuthConfig =
  Username :: string
  Password :: string
  IdentityToken :: string

definition noCredentials :: DockerAuthConfig where
  "noCredentials = \<lparr>Username = [], Password = [], IdentityToken = []\<rparr>"

text \<open>
  The entry of an auth file and the file itself. A Go map is an association list under
  \<open>option\<close>: \<open>None\<close> is the nil map, \<open>Some []\<close> the allocated empty map. Lookup goes
  through \<open>map_of\<close>; the order of the list is the order in which a \<open>range\<close> loop visits
  the entries, which Go leaves unspecified.
\<close>

record dockerAuthConfig =
  Auth :: string
  IdentityToken_conf :: string

type_synonym 'v gomap = "(string \<times> 'v) list option"

record dockerConfigFile =
  AuthConfigs :: "dockerAuthConfig gomap"
  CredHelpers :: "string gomap"

definition lookup :: "'v gomap \<Rightarrow> string \<Rightarrow> 'v option" where
  "lookup m k = (case m of None \<Rightarrow> None | Some al \<Rightarrow> map_of al k)"

definition entries :: "'v gomap \<Rightarrow> (string \<times> 'v) list" where
  "entries m = (case m of None \<Rightarrow> [] | Some al \<Rightarrow> al)"

record authPath =
  path :: string
  legacyFormat :: bool

definition newAuthPathDefault :: "string \<Rightarrow> authPath" where
  "newAuthPathDefault p = \<lparr>path = p, legacyFormat = False\<rparr>"

definition decodeDockerAuth ::
  "string \<Rightarrow> string \<Rightarrow> dockerAuthConfig \<Rightarrow> error + DockerAuthConfig" where
  "decodeDockerAuth file key conf =
     (case DecodeString (Auth conf) of
        None \<Rightarrow> Inl CorruptInputError
      | Some decoded \<Rightarrow>
          (case Cut decoded CHR '':'' of
             (user, passwordPart, valid) \<Rightarrow>
               (if \<not> valid then Inr noCredentials
                else Inr \<lparr>Username = user,
                          Password = Trim passwordPart [NUL],
                          IdentityToken = IdentityToken_conf conf\<rparr>)))"

subsection \<open>Package path/filepath (separator \<open>/\<close>) and decimal formatting\<close>

fun Split :: "string \<Rightarrow> char \<Rightarrow> string list" where
  "Split [] sep = [[]]"
| "Split (x # xs) sep =
     (if x = sep then [] # Split xs sep
      else (case Split xs sep of
              [] \<Rightarrow> [[x]]
            | w # ws \<Rightarrow> (x # w) # ws))"

fun JoinStrings :: "string list \<Rightarrow> string \<Rightarrow> string" where
  "JoinStrings [] sep = []"
| "JoinStrings [e] sep = e"
| "JoinStrings (e # es) sep = e @ sep @ JoinStrings es sep"

text \<open>
  \<open>filepath.Clean\<close>, element by element: empty and \<open>.\<close> elements are dropped, \<open>..\<close>
  removes the element before it, is dropped at the root, and is kept at the start of a
  relative path. \<open>out\<close> holds the elements kept so far, last one first.
\<close>

fun cleanElems :: "bool \<Rightarrow> string list \<Rightarrow> string list \<Rightarrow> string list" where
  "cleanElems rooted out [] = rev out"
| "cleanElems rooted out (e # es) =
     (if e = [] \<or> e = ''.'' then cleanElems rooted out es
      else if e = ''..'' then
        (case out of
           [] \<Rightarrow> (if rooted then cleanElems rooted [] es else cleanElems rooted [e] es)
         | t # ts \<Rightarrow>
             (if t = ''..'' then cleanElems rooted (e # out) es
              else cleanElems rooted ts es))
      else cleanElems rooted (e # out) es)"

definition Clean :: "string \<Rightarrow> string" where
  "Clean p =
     (let rooted = HasPrefix p ''/'';
          body = JoinStrings (cleanElems rooted [] (Split p CHR ''/'')) ''/'';
          res = (if rooted then CHR ''/'' # body else body)
      in if res = [] then ''.'' else res)"

definition Join :: "string list \<Rightarrow> string" where
  "Join elem =
     (case dropWhile (\<lambda>e. e = []) elem of
        [] \<Rightarrow> []
      | es \<Rightarrow> Clean (JoinStrings es ''/''))"

definition Dir :: "string \<Rightarrow> string" where
  "Dir p =
     (case LastIndex p CHR ''/'' of
        None \<Rightarrow> Clean []
      | Some i \<Rightarrow> Clean (take (i + 1) p))"

text \<open>\<open>%d\<close> of a user id.\<close>

function itoa :: "nat \<Rightarrow> string" where
  "itoa n = (if n < 10 then [char_of (48 + n)]
             else itoa (n div 10) @ [char_of (48 + n mod 10)])"
  by pat_completeness auto
termination
  by (relation "measure id") auto

definition defaultPerUIDPath :: "nat \<Rightarrow> string" where
  "defaultPerUIDPath u = ''/run/containers/'' @ itoa u @ ''/auth.json''"

definition xdgConfigHomePath :: string where
  "xdgConfigHomePath = ''containers/auth.json''"

definition xdgRuntimeDirPath :: string where
  "xdgRuntimeDirPath = ''containers/auth.json''"

definition dockerHomePath :: string where
  "dockerHomePath = ''.docker/config.json''"

definition dockerLegacyHomePath :: string where
  "dockerLegacyHomePath = ''.dockercfg''"

definition nonLinuxAuthFilePath :: string where
  "nonLinuxAuthFilePath = ''.config/containers/auth.json''"


section \<open>The environment: files, process state, helper programs\<close>

text \<open>
  The bytes of a file are abstracted to the JSON text they spell, for each of the two
  targets \<open>parse\<close> decodes into: \<open>jsonDoc\<close> is the text seen as a \<open>dockerConfigFile\<close>,
  \<open>jsonAuths\<close> the text seen as the \<open>AuthConfigs\<close> map alone (the legacy format).
  \<open>None\<close> is a text that \<open>json.Unmarshal\<close> rejects for that target; a file of zero
  bytes, like any other text that is not JSON, has \<open>None\<close> for both. Otherwise a map is
  given by the members the decoder meets, in the order of the text (\<open>None\<close> when the
  member is absent or \<open>null\<close>), and a string by the bytes the text spells, escapes
  resolved: the same key may occur twice, and the bytes need not be UTF-8. What
  \<open>json.Unmarshal\<close> builds from the members is \<open>Unmarshal\<close> below.
\<close>

datatype file_data =
  FileData (jsonDoc: "dockerConfigFile option")
           (jsonAuths: "dockerAuthConfig gomap option")

definition notJSON :: file_data where
  "notJSON = FileData None None"

datatype file_node = Unreadable | Readable file_data

text \<open>
  An external program \<open>docker-credential-X\<close> is a deterministic machine over a table
  of credentials (server URL to user name and secret): each of its commands answers from
  the table, with a result or an error, and \<open>store\<close> and \<open>erase\<close> give the next table.
\<close>

type_synonym helper_table = "(string \<times> string \<times> string) list"

record helper_prog =
  table :: helper_table
  on_get :: "helper_table \<Rightarrow> string \<Rightarrow> helper_err + string \<times> string"
  on_store :: "helper_table \<Rightarrow> string \<Rightarrow> string \<Rightarrow> string \<Rightarrow> helper_err + helper_table"
  on_erase :: "helper_table \<Rightarrow> string \<Rightarrow> helper_err + helper_table"

datatype helper_op =
    OpGet string
  | OpStore string string string
  | OpErase string

text \<open>One run of a helper program: its name, the command, and the error it gave, if any.\<close>

record helper_call =
  helper_name :: string
  helper_op :: helper_op
  helper_failure :: "helper_err option"

text \<open>\<open>types.SystemContext\<close>, the fields this package reads.\<close>

record SystemContext =
  AuthFilePath :: string
  LegacyFormatAuthFilePath :: string
  RootForImplicitAbsolutePaths :: string
  DockerAuthConfig :: "DockerAuthConfig option"

text \<open>
  The world the package runs in. Log output is not part of it, and \<open>os.MkdirAll\<close> is
  modelled by whether it fails (\<open>mkdir_fails\<close>), as \<open>ioutils.AtomicWriteFile\<close> is by
  \<open>write_fails\<close>; \<open>stat_not_exist\<close> says for which directories \<open>os.Stat\<close> reports
  that they do not exist. \<open>credentialHelpers\<close> is
  \<open>sysregistriesv2.CredentialHelpers\<close>; \<open>legacy_reading\<close> gives, for a file written by
  \<open>modifyJSON\<close>, the text as the legacy format sees it (the package never reads a path
  it writes in that format; the field keeps the model from choosing an answer).
\<close>

record world =
  files :: "string \<Rightarrow> file_node option"
  environ :: "string \<Rightarrow> string option"
  uid :: nat
  homedir :: string
  GOOS :: string
  stat_not_exist :: "string \<Rightarrow> bool"
  mkdir_fails :: "string \<Rightarrow> bool"
  write_fails :: "string \<Rightarrow> bool"
  credentialHelpers :: "SystemContext option \<Rightarrow> error + string list"
  programs :: "string \<Rightarrow> helper_prog option"
  calls :: "helper_call list"
  legacy_reading :: "dockerConfigFile \<Rightarrow> dockerAuthConfig gomap option"

definition AuthenticationFileHelper :: string where
  "AuthenticationFileHelper = ''containers-auth.json''"

definition Getenv :: "world \<Rightarrow> string \<Rightarrow> string" where
  "Getenv w name = (case environ w name of None \<Rightarrow> [] | Some v \<Rightarrow> v)"

subsection \<open>Helper programs\<close>

definition logCall :: "string \<Rightarrow> helper_op \<Rightarrow> helper_err option \<Rightarrow> world \<Rightarrow> world" where
  "logCall name cmd failure w =
     w\<lparr>calls := calls w @ [\<lparr>helper_name = name, helper_op = cmd, helper_failure = failure\<rparr>]\<rparr>"

text \<open>\<open>helperclient.Get\<close>, \<open>Store\<close> and \<open>Erase\<close> on the program \<open>docker-credential-X\<close>.\<close>

definition helperGet :: "string \<Rightarrow> string \<Rightarrow> world \<Rightarrow> (helper_err + string \<times> string) \<times> world" where
  "helperGet name registry w =
     (case programs w name of
        None \<Rightarrow> (Inl ErrExecNotFound, logCall name (OpGet registry) (Some ErrExecNotFound) w)
      | Some p \<Rightarrow>
          (case on_get p (table p) registry of
             Inl e \<Rightarrow> (Inl e, logCall name (OpGet registry) (Some e) w)
           | Inr c \<Rightarrow> (Inr c, logCall name (OpGet registry) None w)))"

definition helperStore ::
  "string \<Rightarrow> string \<Rightarrow> string \<Rightarrow> string \<Rightarrow> world \<Rightarrow> helper_err option \<times> world" where
  "helperStore name registry username secret w =
     (case programs w name of
        None \<Rightarrow> (Some ErrExecNotFound,
                 logCall name (OpStore registry username secret) (Some ErrExecNotFound) w)
      | Some p \<Rightarrow>
          (case on_store p (table p) registry username secret of
             Inl e \<Rightarrow> (Some e, logCall name (OpStore registry username secret) (Some e) w)
           | Inr t \<Rightarrow>
               (None, logCall name (OpStore registry username secret) None
                        (w\<lparr>programs := (programs w)(name \<mapsto> p\<lparr>table := t\<rparr>)\<rparr>))))"


definition getAuthFromCredHelper ::
  "string \<Rightarrow> string \<Rightarrow> world \<Rightarrow> (error + DockerAuthConfig) \<times> world" where
  "getAuthFromCredHelper credHelper registry w =
     (case helperGet credHelper registry w of
        (Inl e, w') \<Rightarrow>
          (if e = ErrCredentialsNotFound then (Inr noCredentials, w')
           else (Inl (HelperError e), w'))
      | (Inr (username, secret), w') \<Rightarrow>
          (if username = ''<token>'' then
             (Inr \<lparr>Username = [], Password = [], IdentityToken = secret\<rparr>, w')
           else
             (Inr \<lparr>Username = username, Password = secret, IdentityToken = []\<rparr>, w')))"

definition setAuthToCredHelper ::
  "string \<Rightarrow> string \<Rightarrow> string \<Rightarrow> string \<Rightarrow> world \<Rightarrow> (error + string) \<times> world" where
  "setAuthToCredHelper credHelper registry username password w =
     (case helperStore credHelper registry username password w of
        (Some e, w') \<Rightarrow> (Inl (HelperError e), w')
      | (None, w') \<Rightarrow> (Inr (''credential helper: '' @ credHelper), w'))"


subsection \<open>Path resolution\<close>

definition getPathToAuthWithOS ::
  "world \<Rightarrow> SystemContext option \<Rightarrow> string \<Rightarrow> error + authPath \<times> bool" where
  "getPathToAuthWithOS w sys goOS =
     (let explicit =
            (case sys of
               None \<Rightarrow> None
             | Some s \<Rightarrow>
                 (if AuthFilePath s \<noteq> [] then
                    Some (newAuthPathDefault (AuthFilePath s), True)
                  else if LegacyFormatAuthFilePath s \<noteq> [] then
                    Some (\<lparr>path = LegacyFormatAuthFilePath s, legacyFormat = True\<rparr>, True)
                  else if RootForImplicitAbsolutePaths s \<noteq> [] then
                    Some (newAuthPathDefault
                            (Join [RootForImplicitAbsolutePaths s, defaultPerUIDPath (uid w)]),
                          False)
                  else None))
      in case explicit of
           Some r \<Rightarrow> Inr r
         | None \<Rightarrow>
             (if goOS = ''windows'' \<or> goOS = ''darwin'' then
                Inr (newAuthPathDefault (Join [homedir w, nonLinuxAuthFilePath]), False)
              else
                (let runtimeDir = Getenv w ''XDG_RUNTIME_DIR''
                 in if runtimeDir \<noteq> [] then
                      (if stat_not_exist w runtimeDir then Inl (RuntimeDirMissing runtimeDir)
                       else Inr (newAuthPathDefault (Join [runtimeDir, xdgRuntimeDirPath]), False))
                    else Inr (newAuthPathDefault (defaultPerUIDPath (uid w)), False))))"

definition getPathToAuth :: "world \<Rightarrow> SystemContext option \<Rightarrow> error + authPath \<times> bool" where
  "getPathToAuth w sys = getPathToAuthWithOS w sys (GOOS w)"

text \<open>
  When \<open>getPathToAuth\<close> fails, the boolean it returns is \<open>false\<close>, so the fallback paths
  are still appended.
\<close>

definition getAuthFilePaths :: "world \<Rightarrow> SystemContext option \<Rightarrow> string \<Rightarrow> authPath list" where
  "getAuthFilePaths w sys homeDir =
     (let (paths, userSpecifiedPath) =
            (case getPathToAuth w sys of
               Inr (pathToAuth, userSpecified) \<Rightarrow> ([pathToAuth], userSpecified)
             | Inl e \<Rightarrow> ([], False))
      in if \<not> userSpecifiedPath then
           (let xdgCfgHome = (if Getenv w ''XDG_CONFIG_HOME'' = []
                              then Join [homeDir, ''.config'']
                              else Getenv w ''XDG_CONFIG_HOME'');
                paths1 = paths @ [newAuthPathDefault (Join [xdgCfgHome, xdgConfigHomePath])];
                dockerConfig = Getenv w ''DOCKER_CONFIG'';
                paths2 = (if dockerConfig \<noteq> []
                          then paths1 @ [newAuthPathDefault (Join [dockerConfig, ''config.json''])]
                          else paths1 @ [newAuthPathDefault (Join [homeDir, dockerHomePath])])
            in paths2 @ [\<lparr>path = Join [homeDir, dockerLegacyHomePath], legacyFormat = True\<rparr>])
         else paths)"


subsection \<open>The file store\<close>

text \<open>
  \<open>json.Unmarshal\<close> into a Go map, from the members of the text: every string has its
  invalid UTF-8 replaced, and a member whose key is already in the map replaces the
  value stored under it (a later member wins). A nil map stays nil when there is no
  member to decode.
\<close>

definition coerceAuthConfig :: "dockerAuthConfig \<Rightarrow> dockerAuthConfig" where
  "coerceAuthConfig c =
     \<lparr>Auth = replaceInvalidUTF8 (Auth c),
      IdentityToken_conf = replaceInvalidUTF8 (IdentityToken_conf c)\<rparr>"

definition unmarshalMap :: "('v \<Rightarrow> 'v) \<Rightarrow> (string \<times> 'v) list \<Rightarrow> (string \<times> 'v) list" where
  "unmarshalMap f ms =
     foldl (\<lambda>acc (k, v). AList.update (replaceInvalidUTF8 k) (f v) acc) [] ms"

definition Unmarshal :: "('v \<Rightarrow> 'v) \<Rightarrow> 'v gomap \<Rightarrow> 'v gomap" where
  "Unmarshal f m = map_option (unmarshalMap f) m"

definition parse :: "world \<Rightarrow> authPath \<Rightarrow> error + dockerConfigFile" where
  "parse w p =
     (case files w (path p) of
        None \<Rightarrow> Inr \<lparr>AuthConfigs = Some [], CredHelpers = None\<rparr>
      | Some Unreadable \<Rightarrow> Inl (ReadFileError (path p))
      | Some (Readable raw) \<Rightarrow>
          (if legacyFormat p then
             (case jsonAuths raw of
                None \<Rightarrow> Inl (Wrapped (''unmarshaling JSON at '' @ path p) JSONSyntaxError)
              | Some m \<Rightarrow> Inr \<lparr>AuthConfigs = Unmarshal coerceAuthConfig m, CredHelpers = None\<rparr>)
           else
             (case jsonDoc raw of
                None \<Rightarrow> Inl (Wrapped (''unmarshaling JSON at '' @ path p) JSONSyntaxError)
              | Some auths \<Rightarrow>
                  Inr \<lparr>AuthConfigs = (if AuthConfigs auths = None then Some []
                                       else Unmarshal coerceAuthConfig (AuthConfigs auths)),
                       CredHelpers = (if CredHelpers auths = None then Some []
                                      else Unmarshal replaceInvalidUTF8 (CredHelpers auths))\<rparr>)))"

text \<open>
  \<open>json.MarshalIndent\<close> of a document, as the text it makes. A map is written with one
  member for each key, the members sorted by key (as byte strings); every string is
  written with its invalid UTF-8 replaced by U+FFFD, after the sorting, so two keys
  that are not valid UTF-8 can be written as the same key. \<open>auths\<close> is always written
  (as \<open>null\<close> for a nil map); \<open>credHelpers\<close> is omitted when it is nil or empty.
\<close>

definition marshalMap :: "('v \<Rightarrow> 'v) \<Rightarrow> (string \<times> 'v) list \<Rightarrow> (string \<times> 'v) list" where
  "marshalMap f al =
     map (\<lambda>(k, v). (replaceInvalidUTF8 k, f v)) (sort_key fst (AList.clearjunk al))"

definition MarshalIndent :: "world \<Rightarrow> dockerConfigFile \<Rightarrow> file_data" where
  "MarshalIndent w auths =
     FileData
       (Some \<lparr>AuthConfigs = map_option (marshalMap coerceAuthConfig) (AuthConfigs auths),
              CredHelpers = (if entries (CredHelpers auths) = [] then None
                             else map_option (marshalMap replaceInvalidUTF8)
                                    (CredHelpers auths))\<rparr>)
       (legacy_reading w auths)"

text \<open>
  A map as \<open>json.Unmarshal\<close> builds it: no key twice, every key valid UTF-8, every
  value unchanged by the replacement of invalid UTF-8 (\<open>f\<close>).
\<close>

definition canonicalMap :: "('v \<Rightarrow> 'v) \<Rightarrow> (string \<times> 'v) list \<Rightarrow> bool" where
  "canonicalMap f al =
     (distinct (map fst al) \<and> list_all (\<lambda>(k, v). ValidString k \<and> f v = v) al)"

definition canonicalDoc :: "dockerConfigFile \<Rightarrow> bool" where
  "canonicalDoc d =
     (canonicalMap coerceAuthConfig (entries (AuthConfigs d))
      \<and> canonicalMap replaceInvalidUTF8 (entries (CredHelpers d)))"

text \<open>
  \<open>modifyJSON\<close>. The editor is a closure: besides the document it may change the
  variables it captured (\<open>'c\<close>) and run helper programs (the world).
\<close>

type_synonym 'c editor =
  "dockerConfigFile \<Rightarrow> 'c \<Rightarrow> world
     \<Rightarrow> (bool \<times> string \<times> error option) \<times> dockerConfigFile \<times> 'c \<times> world"

definition modifyJSON ::
  "SystemContext option \<Rightarrow> 'c editor \<Rightarrow> 'c \<Rightarrow> world \<Rightarrow> (error + string) \<times> 'c \<times> world" where
  "modifyJSON sys editor c w =
     (case getPathToAuth w sys of
        Inl e \<Rightarrow> (Inl e, c, w)
      | Inr (p, userSpecified) \<Rightarrow>
          (if legacyFormat p then (Inl (LegacyWriteUnsupported (path p)), c, w)
           else if mkdir_fails w (Dir (path p)) then (Inl (MkdirError (Dir (path p))), c, w)
           else
             (case parse w p of
                Inl e \<Rightarrow> (Inl (Wrapped (''reading JSON file '' @ path p) e), c, w)
              | Inr auths \<Rightarrow>
                  (case editor auths c w of
                     ((updated, description, err), auths', c', w') \<Rightarrow>
                       (case err of
                          Some e \<Rightarrow> (Inl (Wrapped (''updating '' @ path p) e), c', w')
                        | None \<Rightarrow>
                            (if updated \<and> write_fails w' (path p) then
                               (Inl (Wrapped (''writing to file '' @ path p)
                                       (WriteFileError (path p))), c', w')
                             else
                               (Inr (if description = [] then path p else description),
                                c',
                                (if updated then
                                   w'\<lparr>files := (files w')
                                          (path p \<mapsto> Readable (MarshalIndent w' auths'))\<rparr>
                                 else w'))))))))"

subsection \<open>The entry matcher\<close>

text \<open>The loop over the candidate keys: the first one that has an entry, with the entry.\<close>

fun probeKeys :: "dockerAuthConfig gomap \<Rightarrow> string list \<Rightarrow> (string \<times> dockerAuthConfig) option" where
  "probeKeys m [] = None"
| "probeKeys m (k # ks) =
     (case lookup m k of
        Some val \<Rightarrow> Some (k, val)
      | None \<Rightarrow> probeKeys m ks)"

text \<open>The loop of the fallback pass, over the entries in the order \<open>range\<close> gives them.\<close>

fun probeNormalized ::
  "(string \<times> dockerAuthConfig) list \<Rightarrow> bool \<Rightarrow> string \<Rightarrow> (string \<times> dockerAuthConfig) option" where
  "probeNormalized [] legacy registry = None"
| "probeNormalized ((k, v) # rest) legacy registry =
     (if normalizeAuthFileKey k legacy = registry then Some (k, v)
      else probeNormalized rest legacy registry)"

definition findCredentialsInFile ::
  "string \<Rightarrow> string \<Rightarrow> authPath \<Rightarrow> world \<Rightarrow> (error + DockerAuthConfig) \<times> world" where
  "findCredentialsInFile key registry p w =
     (case parse w p of
        Inl e \<Rightarrow> (Inl (Wrapped (''reading JSON file '' @ path p) e), w)
      | Inr auths \<Rightarrow>
          (case lookup (CredHelpers auths) registry of
             Some ch \<Rightarrow> getAuthFromCredHelper ch registry w
           | None \<Rightarrow>
               (let keys = (if \<not> legacyFormat p then authKeysForKey key else [registry])
                in case probeKeys (AuthConfigs auths) keys of
                     Some (k, val) \<Rightarrow> (decodeDockerAuth (path p) k val, w)
                   | None \<Rightarrow>
                       (case probeNormalized (entries (AuthConfigs auths)) (legacyFormat p)
                               (normalizeRegistry registry) of
                          Some (k, v) \<Rightarrow> (decodeDockerAuth (path p) k v, w)
                        | None \<Rightarrow> (Inr noCredentials, w)))))"

section \<open>The resolution engine\<close>

text \<open>
  \<open>multierror.Append\<close> of one error to the accumulator \<open>multiErr\<close> (\<open>None\<close> is nil): an
  appended \<open>*multierror.Error\<close> is flattened.
\<close>

definition flatten :: "error \<Rightarrow> error list" where
  "flatten e = (case e of Multi es \<Rightarrow> es | _ \<Rightarrow> [e])"

definition multierror_Append :: "error option \<Rightarrow> error \<Rightarrow> error option" where
  "multierror_Append multiErr e =
     (case multiErr of
        None \<Rightarrow> Some (Multi (flatten e))
      | Some (Multi es) \<Rightarrow> Some (Multi (es @ flatten e))
      | Some other \<Rightarrow> Some (Multi (other # flatten e)))"

subsection \<open>\<open>GetCredentials\<close>\<close>

text \<open>The closure \<open>getCredentialsFromAuthFiles\<close>, as the loop over the paths it is given.\<close>

fun getCredentialsFromAuthFiles ::
  "string \<Rightarrow> string \<Rightarrow> authPath list \<Rightarrow> world \<Rightarrow> (error + DockerAuthConfig \<times> string) \<times> world" where
  "getCredentialsFromAuthFiles key registry [] w = (Inr (noCredentials, []), w)"
| "getCredentialsFromAuthFiles key registry (p # ps) w =
     (case findCredentialsInFile key registry p w of
        (Inl e, w') \<Rightarrow> (Inl e, w')
      | (Inr authConfig, w') \<Rightarrow>
          (if authConfig \<noteq> noCredentials then (Inr (authConfig, path p), w')
           else getCredentialsFromAuthFiles key registry ps w'))"

fun getCredentialsLoop ::
  "SystemContext option \<Rightarrow> string \<Rightarrow> string \<Rightarrow> string \<Rightarrow> string list \<Rightarrow> error option \<Rightarrow> world
     \<Rightarrow> (error + DockerAuthConfig) \<times> world" where
  "getCredentialsLoop sys key registry homeDir [] multiErr w =
     (case multiErr of
        Some e \<Rightarrow> (Inl e, w)
      | None \<Rightarrow> (Inr noCredentials, w))"
| "getCredentialsLoop sys key registry homeDir (helper # rest) multiErr w =
     (case (if helper = AuthenticationFileHelper then
              (case getCredentialsFromAuthFiles key registry
                      (getAuthFilePaths w sys homeDir) w of
                 (Inl e, w') \<Rightarrow> (Inl e, w')
               | (Inr (creds, credHelperPath), w') \<Rightarrow> (Inr creds, w'))
            else getAuthFromCredHelper helper registry w) of
        (Inl e, w') \<Rightarrow>
          getCredentialsLoop sys key registry homeDir rest (multierror_Append multiErr e) w'
      | (Inr creds, w') \<Rightarrow>
          (if creds \<noteq> noCredentials then (Inr creds, w')
           else getCredentialsLoop sys key registry homeDir rest multiErr w'))"

definition getCredentialsWithHomeDir ::
  "SystemContext option \<Rightarrow> string \<Rightarrow> string \<Rightarrow> world \<Rightarrow> (error + DockerAuthConfig) \<times> world" where
  "getCredentialsWithHomeDir sys key homeDir w =
     (case validateKey key of
        Inl e \<Rightarrow> (Inl e, w)
      | Inr isNamespaced \<Rightarrow>
          (case (case sys of None \<Rightarrow> None | Some s \<Rightarrow> DockerAuthConfig s) of
             Some c \<Rightarrow> (Inr c, w)
           | None \<Rightarrow>
               (case credentialHelpers w sys of
                  Inl e \<Rightarrow> (Inl e, w)
                | Inr helpers \<Rightarrow>
                    getCredentialsLoop sys key (registryOf key) homeDir helpers None w)))"

definition GetCredentials ::
  "SystemContext option \<Rightarrow> string \<Rightarrow> world \<Rightarrow> (error + DockerAuthConfig) \<times> world" where
  "GetCredentials sys key w = getCredentialsWithHomeDir sys key (homedir w) w"

subsection \<open>\<open>SetCredentials\<close>\<close>

definition unsupportedNamespaceErr :: "string \<Rightarrow> error" where
  "unsupportedNamespaceErr helper = NamespaceUnsupported helper"

text \<open>
  The editor \<open>SetCredentials\<close> passes to \<open>modifyJSON\<close>. Assigning to an entry of a nil
  map panics; \<open>parse\<close> never gives \<open>modifyJSON\<close> a nil \<open>AuthConfigs\<close>.
\<close>

definition setEditor :: "string \<Rightarrow> bool \<Rightarrow> string \<Rightarrow> string \<Rightarrow> unit editor" where
  "setEditor key isNamespaced username password auths c w =
     (case lookup (CredHelpers auths) key of
        Some ch \<Rightarrow>
          (if isNamespaced then
             ((False, [], Some (unsupportedNamespaceErr ch)), auths, c, w)
           else
             (case setAuthToCredHelper ch key username password w of
                (Inl e, w') \<Rightarrow> ((False, [], Some e), auths, c, w')
              | (Inr desc, w') \<Rightarrow> ((False, desc, None), auths, c, w')))
      | None \<Rightarrow>
          (let creds = EncodeToString (username @ '':'' @ password);
               newCreds = \<lparr>Auth = creds, IdentityToken_conf = []\<rparr>
           in case AuthConfigs auths of
                None \<Rightarrow> ((False, [], Some Panic), auths, c, w)
              | Some al \<Rightarrow>
                  ((True, [], None),
                   auths\<lparr>AuthConfigs := Some (AList.update key newCreds al)\<rparr>, c, w)))"

fun setCredentialsLoop ::
  "SystemContext option \<Rightarrow> string \<Rightarrow> bool \<Rightarrow> string \<Rightarrow> string \<Rightarrow> string list \<Rightarrow> error option
     \<Rightarrow> world \<Rightarrow> (error + string) \<times> world" where
  "setCredentialsLoop sys key isNamespaced username password [] multiErr w =
     (case multiErr of
        Some e \<Rightarrow> (Inl e, w)
      | None \<Rightarrow> (Inr [], w))"
| "setCredentialsLoop sys key isNamespaced username password (helper # rest) multiErr w =
     (case (if helper = AuthenticationFileHelper then
              (case modifyJSON sys (setEditor key isNamespaced username password) () w of
                 (r, c, w') \<Rightarrow> (r, w'))
            else if isNamespaced then (Inl (unsupportedNamespaceErr helper), w)
            else setAuthToCredHelper helper key username password w) of
        (Inl e, w') \<Rightarrow>
          setCredentialsLoop sys key isNamespaced username password rest
            (multierror_Append multiErr e) w'
      | (Inr desc, w') \<Rightarrow> (Inr desc, w'))"

definition SetCredentials ::
  "SystemContext option \<Rightarrow> string \<Rightarrow> string \<Rightarrow> string \<Rightarrow> world \<Rightarrow> (error + string) \<times> world" where
  "SetCredentials sys key username password w =
     (case validateKey key of
        Inl e \<Rightarrow> (Inl e, w)
      | Inr isNamespaced \<Rightarrow>
          (case credentialHelpers w sys of
             Inl e \<Rightarrow> (Inl e, w)
           | Inr helpers \<Rightarrow>
               setCredentialsLoop sys key isNamespaced username password helpers None w))"

subsection \<open>\<open>RemoveAuthentication\<close>\<close>







section \<open>Notions of the specification\<close>

text \<open>
  A file whose bytes \<open>json.Unmarshal\<close> rejects for the format the path is read in: a
  file of zero bytes, or any other text that is not JSON of the expected shape.
\<close>

definition undecodable :: "authPath \<Rightarrow> file_data \<Rightarrow> bool" where
  "undecodable p raw =
     (if legacyFormat p then jsonAuths raw = None else jsonDoc raw = None)"

text \<open>The context supplies an explicit auth-file path, in either format.\<close>

definition userSpecified :: "SystemContext option \<Rightarrow> bool" where
  "userSpecified sys =
     (case sys of
        None \<Rightarrow> False
      | Some s \<Rightarrow> \<not> (AuthFilePath s = [] \<and> LegacyFormatAuthFilePath s = []))"

text \<open>
  Two worlds are the same host when they differ at most in their files, in the tables of
  the helper programs and in the log of helper runs.
\<close>

definition sameHost :: "world \<Rightarrow> world \<Rightarrow> bool" where
  "sameHost w w' =
     (environ w' = environ w \<and> uid w' = uid w \<and> homedir w' = homedir w \<and> GOOS w' = GOOS w
      \<and> stat_not_exist w' = stat_not_exist w \<and> mkdir_fails w' = mkdir_fails w
      \<and> write_fails w' = write_fails w \<and> credentialHelpers w' = credentialHelpers w
      \<and> legacy_reading w' = legacy_reading w)"




section \<open>A sample world\<close>

text \<open>
  A Linux host with no auth file, an empty environment, no helper program installed and
  the file backend as the only configured helper; the examples below start from it.
\<close>

definition baseWorld :: world where
  "baseWorld =
     \<lparr>files = (\<lambda>p. None),
      environ = (\<lambda>n. None),
      uid = 1000,
      homedir = ''/home/u'',
      GOOS = ''linux'',
      stat_not_exist = (\<lambda>d. False),
      mkdir_fails = (\<lambda>d. False),
      write_fails = (\<lambda>p. False),
      credentialHelpers = (\<lambda>sys. Inr [AuthenticationFileHelper]),
      programs = (\<lambda>n. None),
      calls = [],
      legacy_reading = (\<lambda>d. None)\<rparr>"

text \<open>The same host with a primary auth file of zero bytes.\<close>

definition emptyFileWorld :: world where
  "emptyFileWorld =
     baseWorld\<lparr>files := (files baseWorld)
                 (''/run/containers/1000/auth.json'' \<mapsto> Readable notJSON)\<rparr>"

text \<open>
  The same host with a primary auth file holding an entry under a URL, an entry for the
  registry \<open>quay.io\<close> (\<open>alice:r1\<close>) and one for the namespace \<open>quay.io/team\<close>
  (\<open>bob:r2\<close>).
\<close>

definition teamWorld :: world where
  "teamWorld =
     baseWorld\<lparr>files := (files baseWorld)
       (''/run/containers/1000/auth.json'' \<mapsto>
          Readable (FileData
            (Some \<lparr>AuthConfigs =
                      Some [(''https://quay.io/v1/'', \<lparr>Auth = ''Y2Fyb2w6cjM='', IdentityToken_conf = []\<rparr>),
                            (''quay.io'', \<lparr>Auth = ''YWxpY2U6cjE='', IdentityToken_conf = []\<rparr>),
                            (''quay.io/team'', \<lparr>Auth = ''Ym9iOnIy'', IdentityToken_conf = []\<rparr>)],
                   CredHelpers = None\<rparr>)
            None))\<rparr>"

text \<open>
  The same host with a legacy file \<open>.dockercfg\<close> whose only key is the URL that stands
  for \<open>docker.io\<close> (\<open>u:p\<close>).
\<close>

definition legacyWorld :: world where
  "legacyWorld =
     baseWorld\<lparr>files := (files baseWorld)
       (''/home/u/.dockercfg'' \<mapsto>
          Readable (FileData None
            (Some (Some [(''https://index.docker.io/v1/'',
                          \<lparr>Auth = ''dTpw'', IdentityToken_conf = []\<rparr>)]))))\<rparr>"


text \<open>
  A helper program that keeps its table like a key chain: \<open>get\<close> and \<open>erase\<close> of a
  server it does not know answer "credentials not found".
\<close>

definition passProgram :: helper_prog where
  "passProgram =
     \<lparr>table = [(''quay.io'', ''dave'', ''r4'')],
      on_get = (\<lambda>t r. case map_of t r of None \<Rightarrow> Inl ErrCredentialsNotFound | Some c \<Rightarrow> Inr c),
      on_store = (\<lambda>t r u s. Inr (AList.update r (u, s) t)),
      on_erase = (\<lambda>t r. case map_of t r of None \<Rightarrow> Inl ErrCredentialsNotFound
                                         | Some c \<Rightarrow> Inr (AList.delete r t))\<rparr>"


text \<open>
  The host with the primary auth file of zero bytes and that program as a second helper.
\<close>

definition emptyFileHelperWorld :: world where
  "emptyFileHelperWorld =
     emptyFileWorld\<lparr>credentialHelpers := (\<lambda>sys. Inr [AuthenticationFileHelper, ''pass'']),
                    programs := [''pass'' \<mapsto> passProgram]\<rparr>"

text \<open>A host configured with two external helpers and no file backend.\<close>

definition externalOnlyWorld :: world where
  "externalOnlyWorld =
     baseWorld\<lparr>credentialHelpers := (\<lambda>sys. Inr [''pass'', ''secretservice'']),
                programs := [''pass'' \<mapsto> passProgram]\<rparr>"


section \<open>Facts about the string functions\<close>

lemma IndexRune_None_iff: "IndexRune s c = None \<longleftrightarrow> c \<notin> set s"
  by (induction s) auto

lemma ContainsRune_iff: "ContainsRune s c \<longleftrightarrow> c \<in> set s"
  by (simp add: ContainsRune_def IndexRune_None_iff)

lemma IndexRune_Some_split:
  "IndexRune s c = Some i \<Longrightarrow> s = take i s @ c # drop (Suc i) s \<and> c \<notin> set (take i s) \<and> i < length s"
proof (induction s arbitrary: i)
  case Nil
  then show ?case by simp
next
  case (Cons x xs)
  show ?case
  proof (cases "x = c")
    case True
    with Cons.prems show ?thesis by simp
  next
    case False
    with Cons.prems obtain j where j: "IndexRune xs c = Some j" "i = Suc j"
      by auto
    from Cons.IH [OF j(1)] False j(2) show ?thesis by simp
  qed
qed

lemma IndexRune_first:
  "c \<notin> set a \<Longrightarrow> IndexRune (a @ c # b) c = Some (length a)"
  by (induction a) auto

lemma HasPrefix_iff: "HasPrefix s pre \<longleftrightarrow> (\<exists>r. s = pre @ r)"
  unfolding HasPrefix_def
  by (metis append_eq_conv_conj append_take_drop_id)

lemma colon_after_first_slash:
  assumes "IndexRune key CHR ''/'' = Some i"
  shows "CHR '':'' \<in> set (drop (Suc i) key) \<longleftrightarrow> (\<exists>a b c. key = a @ ''/'' @ b @ '':'' @ c)"
proof
  assume "CHR '':'' \<in> set (drop (Suc i) key)"
  then obtain b c where bc: "drop (Suc i) key = b @ CHR '':'' # c"
    by (meson split_list)
  from IndexRune_Some_split [OF assms] have "key = take i key @ CHR ''/'' # drop (Suc i) key"
    by simp
  with bc have "key = take i key @ ''/'' @ b @ '':'' @ c" by simp
  then show "\<exists>a b c. key = a @ ''/'' @ b @ '':'' @ c" by blast
next
  assume "\<exists>a b c. key = a @ ''/'' @ b @ '':'' @ c"
  then obtain a b c where k: "key = a @ ''/'' @ b @ '':'' @ c" by blast
  from IndexRune_Some_split [OF assms]
  have n: "CHR ''/'' \<notin> set (take i key)" and l: "i < length key" by simp_all
  have "i \<le> length a"
  proof (rule ccontr)
    assume "\<not> i \<le> length a"
    then have "length a < i" by simp
    then have "take i key ! length a = CHR ''/''" using k l by (simp add: nth_append)
    moreover have "length a < length (take i key)" using \<open>length a < i\<close> l by simp
    ultimately show False using n by (metis nth_mem)
  qed
  define j where "j = length a + 1 + length b"
  have kj: "key ! j = CHR '':''" and jl: "j < length key" and ij: "Suc i \<le> j"
    using k \<open>i \<le> length a\<close> by (simp_all add: j_def nth_append)
  have "drop (Suc i) key ! (j - Suc i) = key ! j" using ij jl by simp
  moreover have "j - Suc i < length (drop (Suc i) key)" using ij jl by simp
  ultimately show "CHR '':'' \<in> set (drop (Suc i) key)" using kj by (metis nth_mem)
qed

section \<open>The key validator\<close>

text \<open>
  Claim C3. \<open>validateKey\<close> fails with an invalid-key error exactly when the key begins
  with \<open>http://\<close> or \<open>https://\<close>, or contains \<open>@\<close>, or contains a \<open>/\<close> with a \<open>:\<close>
  somewhere after it (which is the same as after the first \<open>/\<close>); when it does not fail
  it reports the key as namespaced iff the key contains \<open>/\<close>. It rejects \<open>https://x\<close>,
  \<open>a/b:1\<close> and every key \<open>x@sha256:\<close>\<dots>, and accepts \<open>localhost:5000/foo\<close> as
  namespaced.
\<close>

theorem validateKey_spec:
  "((\<exists>d. validateKey key = Inl (InvalidKey d key)) \<longleftrightarrow>
      ((\<exists>r. key = ''http://'' @ r) \<or> (\<exists>r. key = ''https://'' @ r)
       \<or> CHR ''@'' \<in> set key
       \<or> (\<exists>a b c. key = a @ ''/'' @ b @ '':'' @ c)))
   \<and> ((\<exists>d. validateKey key = Inl (InvalidKey d key))
        \<or> validateKey key = Inr (CHR ''/'' \<in> set key))
   \<and> validateKey ''https://x'' = Inl (InvalidKey SchemePrefix ''https://x'')
   \<and> validateKey ''a/b:1'' = Inl (InvalidKey ColonAfterHost ''a/b:1'')
   \<and> validateKey (''x@sha256:'' @ digest) = Inl (InvalidKey AtCharacter (''x@sha256:'' @ digest))
   \<and> validateKey ''localhost:5000/foo'' = Inr True"
proof -
  have noslash: "\<not> (\<exists>a b c. key = a @ ''/'' @ b @ '':'' @ c)" if "CHR ''/'' \<notin> set key"
    using that by auto
  have 1: "(\<exists>d. validateKey key = Inl (InvalidKey d key)) \<longleftrightarrow>
      ((\<exists>r. key = ''http://'' @ r) \<or> (\<exists>r. key = ''https://'' @ r)
       \<or> CHR ''@'' \<in> set key
       \<or> (\<exists>a b c. key = a @ ''/'' @ b @ '':'' @ c))"
  proof (cases "IndexRune key CHR ''/''")
    case None
    then have "CHR ''/'' \<notin> set key" by (simp add: IndexRune_None_iff)
    from noslash [OF this] None show ?thesis
      by (simp add: validateKey_def ContainsRune_iff HasPrefix_iff)
  next
    case (Some i)
    from colon_after_first_slash [OF Some] Some show ?thesis
      by (simp add: validateKey_def ContainsRune_iff HasPrefix_iff)
  qed
  have 2: "(\<exists>d. validateKey key = Inl (InvalidKey d key))
        \<or> validateKey key = Inr (CHR ''/'' \<in> set key)"
  proof (cases "IndexRune key CHR ''/''")
    case None
    then have "CHR ''/'' \<notin> set key" by (simp add: IndexRune_None_iff)
    with None show ?thesis by (simp add: validateKey_def)
  next
    case (Some i)
    then have "IndexRune key CHR ''/'' \<noteq> None" by simp
    then have "CHR ''/'' \<in> set key" by (simp add: IndexRune_None_iff)
    with Some show ?thesis by (simp add: validateKey_def)
  qed
  have 3: "validateKey (''x@sha256:'' @ digest) = Inl (InvalidKey AtCharacter (''x@sha256:'' @ digest))"
    by (simp add: validateKey_def ContainsRune_iff HasPrefix_def)
  show ?thesis using 1 2 3
    by (simp add: validateKey_def ContainsRune_def HasPrefix_def)
qed

section \<open>Decoding an entry\<close>

lemma takeWhile_eq_replicate: "takeWhile (\<lambda>c. c = z) s = replicate (length (takeWhile (\<lambda>c. c = z) s)) z"
  by (induction s) auto

lemma TrimLeft_split:
  "\<exists>m. s = replicate m z @ TrimLeft s [z] \<and> (TrimLeft s [z] = [] \<or> hd (TrimLeft s [z]) \<noteq> z)"
proof -
  have "s = takeWhile (\<lambda>c. c = z) s @ dropWhile (\<lambda>c. c = z) s" by simp
  then have "s = replicate (length (takeWhile (\<lambda>c. c = z) s)) z @ TrimLeft s [z]"
    using takeWhile_eq_replicate [of z s] by (simp add: TrimLeft_def)
  moreover have "TrimLeft s [z] = [] \<or> hd (TrimLeft s [z]) \<noteq> z"
    using hd_dropWhile [of "\<lambda>c. c = z" s] by (auto simp: TrimLeft_def)
  ultimately show ?thesis by blast
qed

lemma TrimRight_split:
  "\<exists>n. s = TrimRight s [z] @ replicate n z \<and> (TrimRight s [z] = [] \<or> last (TrimRight s [z]) \<noteq> z)"
proof -
  from TrimLeft_split [of "rev s" z] obtain m where
    m: "rev s = replicate m z @ TrimLeft (rev s) [z]"
    and h: "TrimLeft (rev s) [z] = [] \<or> hd (TrimLeft (rev s) [z]) \<noteq> z" by blast
  have tr: "TrimRight s [z] = rev (TrimLeft (rev s) [z])"
    by (simp add: TrimRight_def TrimLeft_def)
  from m have "rev (rev s) = rev (replicate m z @ TrimLeft (rev s) [z])" by simp
  then have "s = TrimRight s [z] @ replicate m z" by (simp add: tr)
  moreover from h have "TrimRight s [z] = [] \<or> last (TrimRight s [z]) \<noteq> z"
    by (auto simp: tr last_rev)
  ultimately show ?thesis by blast
qed

lemma Trim_split:
  "\<exists>m n. s = replicate m z @ Trim s [z] @ replicate n z
     \<and> (Trim s [z] = [] \<or> (hd (Trim s [z]) \<noteq> z \<and> last (Trim s [z]) \<noteq> z))"
proof -
  from TrimLeft_split [of s z] obtain m where
    m: "s = replicate m z @ TrimLeft s [z]"
    and h: "TrimLeft s [z] = [] \<or> hd (TrimLeft s [z]) \<noteq> z" by blast
  from TrimRight_split [of "TrimLeft s [z]" z] obtain n where
    n: "TrimLeft s [z] = Trim s [z] @ replicate n z"
    and l: "Trim s [z] = [] \<or> last (Trim s [z]) \<noteq> z" by (auto simp: Trim_def)
  have "s = replicate m z @ Trim s [z] @ replicate n z" using m n by simp
  moreover have "Trim s [z] = [] \<or> (hd (Trim s [z]) \<noteq> z \<and> last (Trim s [z]) \<noteq> z)"
  proof (cases "Trim s [z] = []")
    case True then show ?thesis by simp
  next
    case False
    then have "hd (TrimLeft s [z]) = hd (Trim s [z])" using n by (metis hd_append2)
    moreover have "TrimLeft s [z] \<noteq> []" using n False by auto
    ultimately show ?thesis using h l False by auto
  qed
  ultimately show ?thesis by blast
qed

lemma Cut_found:
  assumes "sep \<in> set s"
  shows "\<exists>before after. Cut s sep = (before, after, True) \<and> s = before @ sep # after \<and> sep \<notin> set before"
proof -
  from assms obtain i where i: "IndexRune s sep = Some i"
    using IndexRune_None_iff [of s sep] by auto
  from IndexRune_Some_split [OF i] i show ?thesis
    by (auto simp: Cut_def)
qed

text \<open>
  Claim C5, as the code has it. When the decoded \<open>auth\<close> string contains a colon, the
  user name is the part before the first colon and the password is the part after it
  with every leading and every trailing NUL byte removed (\<open>strings.Trim\<close>); what is
  left neither starts nor ends with NUL, and nothing else is changed. The identity token
  of the entry is kept.
\<close>

theorem decodeDockerAuth_password:
  assumes "DecodeString (Auth conf) = Some decoded" and "CHR '':'' \<in> set decoded"
  shows "\<exists>user passwordPart m n.
           decoded = user @ '':'' @ passwordPart \<and> CHR '':'' \<notin> set user
           \<and> decodeDockerAuth file key conf =
               Inr \<lparr>Username = user, Password = Trim passwordPart [NUL],
                    IdentityToken = IdentityToken_conf conf\<rparr>
           \<and> passwordPart = replicate m NUL @ Trim passwordPart [NUL] @ replicate n NUL
           \<and> (Trim passwordPart [NUL] = []
                \<or> (hd (Trim passwordPart [NUL]) \<noteq> NUL \<and> last (Trim passwordPart [NUL]) \<noteq> NUL))"
proof -
  from Cut_found [OF assms(2)] obtain user passwordPart where
    c: "Cut decoded CHR '':'' = (user, passwordPart, True)"
    and d: "decoded = user @ CHR '':'' # passwordPart" and u: "CHR '':'' \<notin> set user" by blast
  from Trim_split [of passwordPart NUL] obtain m n where
    t: "passwordPart = replicate m NUL @ Trim passwordPart [NUL] @ replicate n NUL"
    and e: "Trim passwordPart [NUL] = []
                \<or> (hd (Trim passwordPart [NUL]) \<noteq> NUL \<and> last (Trim passwordPart [NUL]) \<noteq> NUL)"
    by blast
  have "decodeDockerAuth file key conf =
               Inr \<lparr>Username = user, Password = Trim passwordPart [NUL],
                    IdentityToken = IdentityToken_conf conf\<rparr>"
    using assms(1) c by (simp add: decodeDockerAuth_def)
  with d u t e show ?thesis by (intro exI conjI) simp_all
qed

text \<open>
  Claim C5 as stated says that only trailing NUL bytes are removed. For the entry whose
  \<open>auth\<close> decodes to \<open>u\<close>, colon, NUL, \<open>p\<close> the code returns the password \<open>p\<close>, while
  removing trailing NUL bytes only would leave NUL, \<open>p\<close>.
\<close>

theorem decodeDockerAuth_trailing_only_counterexample:
  "DecodeString ''dToAcA=='' = Some [CHR ''u'', CHR '':'', NUL, CHR ''p'']
   \<and> decodeDockerAuth ''auth.json'' ''quay.io'' \<lparr>Auth = ''dToAcA=='', IdentityToken_conf = []\<rparr>
       = Inr \<lparr>Username = ''u'', Password = ''p'', IdentityToken = []\<rparr>
   \<and> TrimRight [NUL, CHR ''p''] [NUL] = [NUL, CHR ''p'']
   \<and> ''p'' \<noteq> [NUL, CHR ''p'']"
  by (simp add: decodeDockerAuth_def DecodeString_def dec6_def encodeStd_def Cut_def
        Trim_def TrimLeft_def TrimRight_def NUL_def char_of_eq_iff take_bit_eq_mod)

text \<open>The amended claim C5 at an entry whose password has NUL bytes at both ends.\<close>

theorem decodeDockerAuth_password_witness:
  "DecodeString ''dToAcAA='' = Some [CHR ''u'', CHR '':'', NUL, CHR ''p'', NUL]
   \<and> (\<exists>user passwordPart.
         [CHR ''u'', CHR '':'', NUL, CHR ''p'', NUL] = user @ '':'' @ passwordPart
         \<and> decodeDockerAuth ''auth.json'' ''quay.io''
              \<lparr>Auth = ''dToAcAA='', IdentityToken_conf = ''tok''\<rparr> =
             Inr \<lparr>Username = user, Password = Trim passwordPart [NUL],
                  IdentityToken = ''tok''\<rparr>)"
proof -
  have d: "DecodeString (Auth \<lparr>Auth = ''dToAcAA='', IdentityToken_conf = ''tok''\<rparr>)
             = Some [CHR ''u'', CHR '':'', NUL, CHR ''p'', NUL]"
    by (simp add: DecodeString_def dec6_def encodeStd_def NUL_def char_of_eq_iff take_bit_eq_mod)
  have c: "CHR '':'' \<in> set [CHR ''u'', CHR '':'', NUL, CHR ''p'', NUL]" by simp
  from decodeDockerAuth_password [OF d c, of "''auth.json''" "''quay.io''"]
  have "\<exists>user passwordPart.
         [CHR ''u'', CHR '':'', NUL, CHR ''p'', NUL] = user @ '':'' @ passwordPart
         \<and> decodeDockerAuth ''auth.json'' ''quay.io''
              \<lparr>Auth = ''dToAcAA='', IdentityToken_conf = ''tok''\<rparr> =
             Inr \<lparr>Username = user, Password = Trim passwordPart [NUL],
                  IdentityToken = ''tok''\<rparr>"
    by auto
  with d show ?thesis by simp
qed

section \<open>UTF-8 and the JSON codec\<close>

declare runeWidth.simps(2) [simp del]
declare replaceInvalidUTF8.simps(2) [simp del]
declare ValidString.simps(2) [simp del]

lemma runeWidth_le: "runeWidth s \<le> length s"
  by (cases s) (auto simp: runeWidth.simps Let_def split: list.splits)

lemma runeWidth_prefix:
  assumes "runeWidth s \<noteq> 0"
  shows "runeWidth (take (runeWidth s) s @ t) = runeWidth s"
proof (cases s)
  case Nil
  with assms show ?thesis by simp
next
  case (Cons a r)
  define x where "x = (of_char a :: nat)"
  consider (one) "x < 0x80"
    | (two) "\<not> x < 0x80" "0xC2 \<le> x \<and> x \<le> 0xDF"
    | (three) "\<not> x < 0x80" "\<not> (0xC2 \<le> x \<and> x \<le> 0xDF)" "0xE0 \<le> x \<and> x \<le> 0xEF"
    | (four) "\<not> x < 0x80" "\<not> (0xC2 \<le> x \<and> x \<le> 0xDF)" "\<not> (0xE0 \<le> x \<and> x \<le> 0xEF)"
             "0xF0 \<le> x \<and> x \<le> 0xF4"
    | (none) "\<not> x < 0x80" "\<not> (0xC2 \<le> x \<and> x \<le> 0xDF)" "\<not> (0xE0 \<le> x \<and> x \<le> 0xEF)"
             "\<not> (0xF0 \<le> x \<and> x \<le> 0xF4)"
    by blast
  then show ?thesis
  proof cases
    case one
    then have "\<And>r. runeWidth (a # r) = 1"
      unfolding x_def by (simp only: runeWidth.simps Let_def if_True simp_thms)
    then show ?thesis using Cons by simp
  next
    case two
    then have e: "\<And>r. runeWidth (a # r) =
        (case r of b # r' \<Rightarrow> (if inRange 0x80 0xBF b then 2 else 0) | _ \<Rightarrow> 0)"
      unfolding x_def by (simp only: runeWidth.simps Let_def if_True if_False simp_thms)
    from assms Cons obtain b r' where r: "r = b # r'" and b: "inRange 0x80 0xBF b"
      by (cases r) (auto simp only: e list.case split: if_splits)
    show ?thesis unfolding Cons r by (simp add: e b)
  next
    case three
    then have e: "\<And>r. runeWidth (a # r) =
        (case r of
              b # c # r' \<Rightarrow>
                (if inRange (if x = 0xE0 then 0xA0 else 0x80) (if x = 0xED then 0x9F else 0xBF) b
                    \<and> inRange 0x80 0xBF c
                 then 3 else 0)
            | _ \<Rightarrow> 0)"
      unfolding x_def by (simp only: runeWidth.simps Let_def if_True if_False simp_thms)
    from assms Cons obtain b c r' where r: "r = b # c # r'"
      and b: "inRange (if x = 0xE0 then 0xA0 else 0x80) (if x = 0xED then 0x9F else 0xBF) b"
             "inRange 0x80 0xBF c"
      by (cases r; cases "tl r") (auto simp only: e list.case list.sel split: if_splits)
    have w: "runeWidth (a # r) = 3"
      unfolding r by (simp only: e list.case b simp_thms if_True)
    show ?thesis unfolding Cons w unfolding r by (simp add: e b)
  next
    case four
    then have e: "\<And>r. runeWidth (a # r) =
        (case r of
              b # c # d # r' \<Rightarrow>
                (if inRange (if x = 0xF0 then 0x90 else 0x80) (if x = 0xF4 then 0x8F else 0xBF) b
                    \<and> inRange 0x80 0xBF c \<and> inRange 0x80 0xBF d
                 then 4 else 0)
            | _ \<Rightarrow> 0)"
      unfolding x_def by (simp only: runeWidth.simps Let_def if_True if_False simp_thms)
    from assms Cons obtain b c d r' where r: "r = b # c # d # r'"
      and b: "inRange (if x = 0xF0 then 0x90 else 0x80) (if x = 0xF4 then 0x8F else 0xBF) b"
             "inRange 0x80 0xBF c" "inRange 0x80 0xBF d"
      by (cases r; cases "tl r"; cases "tl (tl r)")
         (auto simp only: e list.case list.sel split: if_splits)
    have w: "runeWidth (a # r) = 4"
      unfolding r by (simp only: e list.case b simp_thms if_True)
    show ?thesis unfolding Cons w unfolding r by (simp add: e b)
  next
    case none
    then have "runeWidth (a # r) = 0"
      unfolding x_def by (simp only: runeWidth.simps Let_def if_True if_False simp_thms)
    with assms Cons show ?thesis by simp
  qed
qed

lemma runeWidth_RuneError: "runeWidth (RuneError @ t) = 3"
  by (simp add: RuneError_def runeWidth.simps inRange_def)

lemma ValidString_append_rune:
  assumes "runeWidth s \<noteq> 0"
  shows "ValidString (take (runeWidth s) s @ t) = ValidString t"
proof -
  let ?q = "take (runeWidth s) s"
  have n: "length ?q = runeWidth s" using runeWidth_le [of s] by simp
  from assms have "?q \<noteq> []" using n by auto
  then obtain a r where q: "?q = a # r" by (cases ?q) auto
  have w: "runeWidth (?q @ t) = runeWidth s" by (rule runeWidth_prefix [OF assms])
  have "ValidString (?q @ t) = ValidString (drop (runeWidth s) (?q @ t))"
    using w assms q by (simp add: ValidString.simps)
  also have "drop (runeWidth s) (?q @ t) = t" using n by simp
  finally show ?thesis .
qed

lemma ValidString_replaceInvalidUTF8: "ValidString (replaceInvalidUTF8 s)"
proof (induction s rule: replaceInvalidUTF8.induct)
  case 1
  then show ?case by simp
next
  case (2 a r)
  show ?case
  proof (cases "runeWidth (a # r) = 0")
    case True
    have "runeWidth RuneError \<noteq> 0" using runeWidth_RuneError [of "[]"] by simp
    moreover have "take (runeWidth RuneError) RuneError = RuneError"
      using runeWidth_RuneError [of "[]"] by (simp add: RuneError_def)
    ultimately have "ValidString (RuneError @ replaceInvalidUTF8 r)
                       = ValidString (replaceInvalidUTF8 r)"
      using ValidString_append_rune [of RuneError "replaceInvalidUTF8 r"] by simp
    with True "2.IH"(1) show ?thesis by (simp add: replaceInvalidUTF8.simps)
  next
    case False
    with "2.IH"(2) ValidString_append_rune [OF False] show ?thesis
      by (simp add: replaceInvalidUTF8.simps)
  qed
qed

lemma replaceInvalidUTF8_valid: "ValidString s \<Longrightarrow> replaceInvalidUTF8 s = s"
proof (induction s rule: replaceInvalidUTF8.induct)
  case 1
  then show ?case by simp
next
  case (2 a r)
  from "2.prems" have w: "runeWidth (a # r) \<noteq> 0"
    and v: "ValidString (drop (runeWidth (a # r)) (a # r))"
    by (auto simp: ValidString.simps split: if_splits)
  from "2.IH"(2) [OF w v] w show ?case
    by (simp add: replaceInvalidUTF8.simps del: take_Cons' drop_Cons')
qed

lemma ValidString_ascii: "(\<forall>c \<in> set s. of_char c < (128 :: nat)) \<Longrightarrow> ValidString s"
proof (induction s)
  case Nil
  then show ?case by simp
next
  case (Cons a s)
  then have "runeWidth (a # s) = 1" by (simp add: runeWidth.simps)
  with Cons show ?case by (simp add: ValidString.simps)
qed

lemma replaceInvalidUTF8_ascii:
  "(\<forall>c \<in> set s. of_char c < (128 :: nat)) \<Longrightarrow> replaceInvalidUTF8 s = s"
  by (simp add: replaceInvalidUTF8_valid ValidString_ascii)

lemma replaceInvalidUTF8_idem: "replaceInvalidUTF8 (replaceInvalidUTF8 s) = replaceInvalidUTF8 s"
  by (simp add: replaceInvalidUTF8_valid ValidString_replaceInvalidUTF8)

lemma coerceAuthConfig_idem: "coerceAuthConfig (coerceAuthConfig c) = coerceAuthConfig c"
  by (simp add: coerceAuthConfig_def replaceInvalidUTF8_idem)

text \<open>The JSON codec on maps with distinct keys and valid UTF-8.\<close>

lemma update_fresh: "k \<notin> fst ` set al \<Longrightarrow> AList.update k v al = al @ [(k, v)]"
  by (induction al) auto

lemma canonicalMap_Nil: "canonicalMap f []"
  by (simp add: canonicalMap_def)

lemma canonicalMap_update:
  assumes "canonicalMap f al" and "ValidString k" and "f v = v"
  shows "canonicalMap f (AList.update k v al)"
proof -
  have "list_all (\<lambda>(k, v). ValidString k \<and> f v = v) (AList.update k v al)"
    using assms unfolding canonicalMap_def
    by (induction al) (auto simp: list_all_iff)
  with assms(1) show ?thesis by (simp add: canonicalMap_def distinct_update)
qed


lemma canonicalMap_foldl:
  assumes "\<And>v. f (f v) = f v" and "canonicalMap f acc"
  shows "canonicalMap f
           (foldl (\<lambda>acc (k, v). AList.update (replaceInvalidUTF8 k) (f v) acc) acc ms)"
  using assms(2)
proof (induction ms arbitrary: acc)
  case Nil
  then show ?case by simp
next
  case (Cons m ms)
  obtain k v where m: "m = (k, v)" by (cases m)
  have "canonicalMap f (AList.update (replaceInvalidUTF8 k) (f v) acc)"
    by (rule canonicalMap_update [OF Cons.prems ValidString_replaceInvalidUTF8 assms(1)])
  from Cons.IH [OF this] show ?case by (simp add: m)
qed

lemma canonicalMap_unmarshalMap:
  "(\<And>v. f (f v) = f v) \<Longrightarrow> canonicalMap f (unmarshalMap f ms)"
  unfolding unmarshalMap_def by (rule canonicalMap_foldl) (simp_all add: canonicalMap_Nil)

lemma foldl_update_canonical:
  "canonicalMap f (acc @ ms) \<Longrightarrow>
     foldl (\<lambda>acc (k, v). AList.update (replaceInvalidUTF8 k) (f v) acc) acc ms = acc @ ms"
proof (induction ms arbitrary: acc)
  case Nil
  then show ?case by simp
next
  case (Cons m ms)
  obtain k v where m: "m = (k, v)" by (cases m)
  from Cons.prems have k: "ValidString k" and v: "f v = v" and fresh: "k \<notin> fst ` set acc"
    by (auto simp: canonicalMap_def m)
  have "AList.update (replaceInvalidUTF8 k) (f v) acc = acc @ [(k, v)]"
    using update_fresh [OF fresh] by (simp add: replaceInvalidUTF8_valid k v)
  moreover have "canonicalMap f ((acc @ [(k, v)]) @ ms)" using Cons.prems by (simp add: m)
  ultimately show ?case using Cons.IH [of "acc @ [(k, v)]"] by (simp add: m)
qed

lemma unmarshalMap_canonical: "canonicalMap f al \<Longrightarrow> unmarshalMap f al = al"
  using foldl_update_canonical [of f "[]" al] by (simp add: unmarshalMap_def)

lemma canonicalMap_sort:
  "canonicalMap f al \<Longrightarrow> canonicalMap f (sort_key fst al)"
  by (simp add: canonicalMap_def distinct_map list_all_iff)

lemma map_of_sort:
  "distinct (map fst al) \<Longrightarrow> map_of (sort_key fst al) = map_of al"
  by (subst map_of_inject_set) (simp_all add: distinct_map)

lemma marshalMap_canonical:
  assumes "canonicalMap f al"
  shows "marshalMap f al = sort_key fst al"
proof -
  have "AList.clearjunk al = al"
    using assms by (simp add: canonicalMap_def distinct_clearjunk_id)
  moreover have "map (\<lambda>(k, v). (replaceInvalidUTF8 k, f v)) (sort_key fst al) = sort_key fst al"
    using assms by (intro map_idI) (auto simp: canonicalMap_def list_all_iff replaceInvalidUTF8_valid)
  ultimately show ?thesis by (simp add: marshalMap_def)
qed

lemma write_read_canonical:
  assumes "canonicalMap f al"
  shows "unmarshalMap f (marshalMap f al) = sort_key fst al"
  using assms by (simp add: marshalMap_canonical unmarshalMap_canonical canonicalMap_sort)

lemma canonicalDoc_parse: "parse w p = Inr d \<Longrightarrow> canonicalDoc d"
  by (auto simp: parse_def canonicalDoc_def entries_def Unmarshal_def canonicalMap_Nil
        canonicalMap_unmarshalMap coerceAuthConfig_idem replaceInvalidUTF8_idem
        split: option.splits file_node.splits if_splits)

lemma parse_after_write:
  assumes "\<not> legacyFormat pp" and "canonicalDoc d"
  shows "\<exists>d'. parse (w\<lparr>files := (files w)(path pp \<mapsto> Readable (MarshalIndent w d))\<rparr>) pp = Inr d'
           \<and> lookup (AuthConfigs d') = lookup (AuthConfigs d)
           \<and> lookup (CredHelpers d') = lookup (CredHelpers d)"
proof -
  define A where "A = (if AuthConfigs d = None then Some []
                       else Unmarshal coerceAuthConfig
                              (map_option (marshalMap coerceAuthConfig) (AuthConfigs d)))"
  define C where "C = (if entries (CredHelpers d) = [] then Some []
                       else Unmarshal replaceInvalidUTF8
                              (map_option (marshalMap replaceInvalidUTF8) (CredHelpers d)))"
  have a: "canonicalMap coerceAuthConfig al" if "AuthConfigs d = Some al" for al
    using assms(2) that by (simp add: canonicalDoc_def entries_def)
  have c: "canonicalMap replaceInvalidUTF8 al" if "CredHelpers d = Some al" for al
    using assms(2) that by (simp add: canonicalDoc_def entries_def)
  have la: "lookup A = lookup (AuthConfigs d)"
    using a unfolding A_def by (cases "AuthConfigs d")
      (auto simp: lookup_def Unmarshal_def write_read_canonical map_of_sort canonicalMap_def)
  have lc: "lookup C = lookup (CredHelpers d)"
    using c unfolding C_def by (cases "CredHelpers d")
      (auto simp: lookup_def entries_def Unmarshal_def write_read_canonical map_of_sort
         canonicalMap_def)
  have "parse (w\<lparr>files := (files w)(path pp \<mapsto> Readable (MarshalIndent w d))\<rparr>) pp
          = Inr \<lparr>AuthConfigs = A, CredHelpers = C\<rparr>"
    using assms(1) unfolding A_def C_def
    by (cases "AuthConfigs d"; cases "CredHelpers d")
       (simp_all add: parse_def MarshalIndent_def entries_def Unmarshal_def)
  with la lc show ?thesis by simp
qed

lemmas json_eval =
  Unmarshal_def unmarshalMap_def coerceAuthConfig_def replaceInvalidUTF8_ascii

section \<open>The file store\<close>

declare authKeysForKey.simps [simp del]
declare itoa.simps [simp del]

lemma parse_absent:
  "files w (path p) = None \<Longrightarrow> parse w p = Inr \<lparr>AuthConfigs = Some [], CredHelpers = None\<rparr>"
  by (simp add: parse_def)

lemma parse_undecodable:
  "files w (path p) = Some (Readable raw) \<Longrightarrow> undecodable p raw \<Longrightarrow>
   parse w p = Inl (Wrapped (''unmarshaling JSON at '' @ path p) JSONSyntaxError)"
  by (simp add: parse_def undecodable_def split: if_splits)

lemma probeKeys_empty: "probeKeys (Some []) ks = None"
  by (induction ks) (simp_all add: lookup_def)

lemma findCredentialsInFile_absent:
  "files w (path p) = None \<Longrightarrow> findCredentialsInFile key registry p w = (Inr noCredentials, w)"
  by (simp add: findCredentialsInFile_def parse_absent lookup_def entries_def probeKeys_empty)

lemma findCredentialsInFile_parse_error:
  "parse w p = Inl e \<Longrightarrow>
   findCredentialsInFile key registry p w = (Inl (Wrapped (''reading JSON file '' @ path p) e), w)"
  by (simp add: findCredentialsInFile_def)

lemma flatten_simps [simp]:
  "flatten (Wrapped m e) = [Wrapped m e]"
  "flatten CorruptInputError = [CorruptInputError]"
  "flatten (HelperError h) = [HelperError h]"
  "flatten (NamespaceUnsupported n) = [NamespaceUnsupported n]"
  "flatten (WrappedNil m) = [WrappedNil m]"
  by (simp_all add: flatten_def)

lemma getCredentialsLoop_file_only:
  "getCredentialsLoop sys key registry homeDir [AuthenticationFileHelper] None w =
     (case getCredentialsFromAuthFiles key registry (getAuthFilePaths w sys homeDir) w of
        (Inl e, w') \<Rightarrow> (Inl (Multi (flatten e)), w')
      | (Inr (creds, file), w') \<Rightarrow> (Inr creds, w'))"
  by (auto simp: multierror_Append_def split: prod.splits sum.splits)

lemma getCredentialsWithHomeDir_file_only:
  assumes "validateKey key = Inr ns"
    and "(case sys of None \<Rightarrow> None | Some s \<Rightarrow> DockerAuthConfig s) = None"
    and "credentialHelpers w sys = Inr [AuthenticationFileHelper]"
  shows "getCredentialsWithHomeDir sys key homeDir w =
     (case getCredentialsFromAuthFiles key (registryOf key) (getAuthFilePaths w sys homeDir) w of
        (Inl e, w') \<Rightarrow> (Inl (Multi (flatten e)), w')
      | (Inr (creds, file), w') \<Rightarrow> (Inr creds, w'))"
  using assms by (simp add: getCredentialsWithHomeDir_def getCredentialsLoop_file_only del: getCredentialsLoop.simps)

lemmas path_eval =
  getAuthFilePaths_def getPathToAuth_def getPathToAuthWithOS_def Getenv_def
  defaultPerUIDPath_def newAuthPathDefault_def Join_def Clean_def HasPrefix_def
  xdgConfigHomePath_def xdgRuntimeDirPath_def dockerHomePath_def dockerLegacyHomePath_def
  nonLinuxAuthFilePath_def itoa.simps char_of_eq_iff take_bit_eq_mod

lemma baseWorld_paths:
  "getAuthFilePaths baseWorld None ''/home/u'' =
     [\<lparr>path = ''/run/containers/1000/auth.json'', legacyFormat = False\<rparr>,
      \<lparr>path = ''/home/u/.config/containers/auth.json'', legacyFormat = False\<rparr>,
      \<lparr>path = ''/home/u/.docker/config.json'', legacyFormat = False\<rparr>,
      \<lparr>path = ''/home/u/.dockercfg'', legacyFormat = True\<rparr>]"
  by (simp add: path_eval baseWorld_def)

lemma emptyFileWorld_paths:
  "getAuthFilePaths emptyFileWorld None ''/home/u'' =
     [\<lparr>path = ''/run/containers/1000/auth.json'', legacyFormat = False\<rparr>,
      \<lparr>path = ''/home/u/.config/containers/auth.json'', legacyFormat = False\<rparr>,
      \<lparr>path = ''/home/u/.docker/config.json'', legacyFormat = False\<rparr>,
      \<lparr>path = ''/home/u/.dockercfg'', legacyFormat = True\<rparr>]"
  by (simp add: path_eval baseWorld_def emptyFileWorld_def)

text \<open>
  Claim C4, as the code has it. For a path whose file does not exist \<open>parse\<close> returns
  without error a document whose \<open>auths\<close> map is allocated and empty and whose
  \<open>credHelpers\<close> map is nil; both have no entries.
\<close>

theorem parse_absent_nil_credHelpers:
  assumes "files w (path p) = None"
  shows "\<exists>d. parse w p = Inr d \<and> AuthConfigs d = Some [] \<and> CredHelpers d = None
           \<and> entries (AuthConfigs d) = [] \<and> entries (CredHelpers d) = []"
  using assms by (simp add: parse_absent entries_def)

text \<open>
  Claim C4 as stated says that both maps are non-nil. On the sample host, where the
  primary auth file does not exist, the \<open>credHelpers\<close> map of the result is nil: the
  branch for a missing file allocates \<open>AuthConfigs\<close> only.
\<close>

theorem parse_absent_nonnil_counterexample:
  "files baseWorld ''/run/containers/1000/auth.json'' = None
   \<and> parse baseWorld \<lparr>path = ''/run/containers/1000/auth.json'', legacyFormat = False\<rparr>
       = Inr \<lparr>AuthConfigs = Some [], CredHelpers = None\<rparr>
   \<and> CredHelpers \<lparr>AuthConfigs = Some [], CredHelpers = None\<rparr> \<noteq> Some []"
  by (simp add: parse_def baseWorld_def)

text \<open>The amended claim C4 at the legacy fallback path of the sample host.\<close>

theorem parse_absent_nil_credHelpers_witness:
  "files baseWorld ''/home/u/.dockercfg'' = None
   \<and> (\<exists>d. parse baseWorld \<lparr>path = ''/home/u/.dockercfg'', legacyFormat = True\<rparr> = Inr d
          \<and> AuthConfigs d = Some [] \<and> CredHelpers d = None)"
proof -
  have a: "files baseWorld (path \<lparr>path = ''/home/u/.dockercfg'', legacyFormat = True\<rparr>) = None"
    by (simp add: baseWorld_def)
  from parse_absent_nil_credHelpers [OF a] a show ?thesis by auto
qed

section \<open>The path resolver\<close>

lemma getPathToAuth_userSpecified:
  "getPathToAuth w sys = Inr (p, u) \<Longrightarrow> u = userSpecified sys"
  by (auto simp: getPathToAuth_def getPathToAuthWithOS_def userSpecified_def Let_def
           split: option.splits if_splits)

lemma getPathToAuth_error_not_userSpecified:
  "getPathToAuth w sys = Inl e \<Longrightarrow> \<not> userSpecified sys"
  by (auto simp: getPathToAuth_def getPathToAuthWithOS_def userSpecified_def Let_def
           split: option.splits if_splits)

text \<open>
  Claim C7. The list of auth paths is the primary path (left out when \<open>getPathToAuth\<close>
  fails) followed, unless the context names an auth file itself, by exactly three
  fallbacks in this order: \<open>containers/auth.json\<close> under \<open>XDG_CONFIG_HOME\<close> or, when
  that is unset, under \<open>.config\<close> of the home directory; \<open>config.json\<close> under
  \<open>DOCKER_CONFIG\<close> or, when that is unset, \<open>.docker/config.json\<close> of the home
  directory; and \<open>.dockercfg\<close> of the home directory, the only one in the legacy format.
  When the context names an auth file, nothing follows the primary path.
\<close>

theorem getAuthFilePaths_fallbacks:
  "getAuthFilePaths w sys homeDir =
     (case getPathToAuth w sys of Inl e \<Rightarrow> [] | Inr (primary, u) \<Rightarrow> [primary])
     @ (if userSpecified sys then []
        else [\<lparr>path = Join [if Getenv w ''XDG_CONFIG_HOME'' = [] then Join [homeDir, ''.config'']
                             else Getenv w ''XDG_CONFIG_HOME'', ''containers/auth.json''],
                legacyFormat = False\<rparr>,
              \<lparr>path = (if Getenv w ''DOCKER_CONFIG'' = [] then Join [homeDir, ''.docker/config.json'']
                       else Join [Getenv w ''DOCKER_CONFIG'', ''config.json'']),
                legacyFormat = False\<rparr>,
              \<lparr>path = Join [homeDir, ''.dockercfg''], legacyFormat = True\<rparr>])"
proof (cases "getPathToAuth w sys")
  case (Inl e)
  from getPathToAuth_error_not_userSpecified [OF Inl] Inl show ?thesis
    by (simp add: getAuthFilePaths_def newAuthPathDefault_def xdgConfigHomePath_def
          dockerHomePath_def dockerLegacyHomePath_def)
next
  case (Inr r)
  obtain p u where r: "r = (p, u)" by (cases r)
  from getPathToAuth_userSpecified [of w sys p u] Inr r show ?thesis
    by (simp add: getAuthFilePaths_def newAuthPathDefault_def xdgConfigHomePath_def
          dockerHomePath_def dockerLegacyHomePath_def)
qed

text \<open>
  Claim C7 on the sample host with \<open>DOCKER_CONFIG\<close> set, and with an explicit auth file.
\<close>

theorem getAuthFilePaths_fallbacks_witness:
  "getAuthFilePaths (baseWorld\<lparr>environ := [''DOCKER_CONFIG'' \<mapsto> ''/etc/docker'']\<rparr>) None ''/home/u'' =
     [\<lparr>path = ''/run/containers/1000/auth.json'', legacyFormat = False\<rparr>,
      \<lparr>path = ''/home/u/.config/containers/auth.json'', legacyFormat = False\<rparr>,
      \<lparr>path = ''/etc/docker/config.json'', legacyFormat = False\<rparr>,
      \<lparr>path = ''/home/u/.dockercfg'', legacyFormat = True\<rparr>]
   \<and> getAuthFilePaths baseWorld
        (Some \<lparr>AuthFilePath = ''/tmp/auth.json'', LegacyFormatAuthFilePath = [],
               RootForImplicitAbsolutePaths = [], DockerAuthConfig = None\<rparr>) ''/home/u'' =
     [\<lparr>path = ''/tmp/auth.json'', legacyFormat = False\<rparr>]"
proof -
  define w where "w = baseWorld\<lparr>environ := [''DOCKER_CONFIG'' \<mapsto> ''/etc/docker'']\<rparr>"
  define sys where "sys = Some \<lparr>AuthFilePath = ''/tmp/auth.json'', LegacyFormatAuthFilePath = [],
               RootForImplicitAbsolutePaths = [], DockerAuthConfig = None\<rparr>"
  have 1: "getPathToAuth w None
             = Inr (\<lparr>path = ''/run/containers/1000/auth.json'', legacyFormat = False\<rparr>, False)"
    by (simp add: path_eval baseWorld_def w_def)
  have 2: "getPathToAuth baseWorld sys
             = Inr (\<lparr>path = ''/tmp/auth.json'', legacyFormat = False\<rparr>, True)"
    by (simp add: path_eval baseWorld_def sys_def)
  have 3: "Getenv w ''XDG_CONFIG_HOME'' = []" "Getenv w ''DOCKER_CONFIG'' = ''/etc/docker''"
    by (simp_all add: Getenv_def w_def baseWorld_def)
  have 4: "userSpecified sys" "\<not> userSpecified None"
    by (simp_all add: userSpecified_def sys_def)
  have "getAuthFilePaths w None ''/home/u'' =
     [\<lparr>path = ''/run/containers/1000/auth.json'', legacyFormat = False\<rparr>,
      \<lparr>path = ''/home/u/.config/containers/auth.json'', legacyFormat = False\<rparr>,
      \<lparr>path = ''/etc/docker/config.json'', legacyFormat = False\<rparr>,
      \<lparr>path = ''/home/u/.dockercfg'', legacyFormat = True\<rparr>]"
    using getAuthFilePaths_fallbacks [of w None "''/home/u''"]
    by (simp add: 1 3 4 Join_def Clean_def HasPrefix_def)
  moreover have "getAuthFilePaths baseWorld sys ''/home/u'' =
     [\<lparr>path = ''/tmp/auth.json'', legacyFormat = False\<rparr>]"
    using getAuthFilePaths_fallbacks [of baseWorld sys "''/home/u''"]
    by (simp add: 2 4)
  ultimately show ?thesis by (simp add: w_def sys_def)
qed

section \<open>The entry matcher\<close>

lemma Split_nonempty: "Split s c \<noteq> []"
  by (induction s) (auto split: list.splits)

lemma Split_no_sep: "c \<notin> set s \<Longrightarrow> Split s c = [s]"
  by (induction s) auto

lemma Split_append:
  "c \<notin> set b \<Longrightarrow> Split (a @ c # b) c = Split a c @ [b]"
proof (induction a)
  case Nil
  then show ?case by (simp add: Split_no_sep)
next
  case (Cons x a)
  then show ?case using Split_nonempty [of a c]
    by (cases "Split a c") auto
qed

lemma JoinStrings_snoc:
  "es \<noteq> [] \<Longrightarrow> JoinStrings (es @ [b]) sep = JoinStrings es sep @ sep @ b"
  by (induction es sep rule: JoinStrings.induct) auto

lemma JoinStrings_Split: "JoinStrings (Split s c) [c] = s"
proof (induction s)
  case Nil
  then show ?case by simp
next
  case (Cons x s)
  show ?case
  proof (cases "x = c")
    case True
    with Cons Split_nonempty [of s c] show ?thesis
      by (cases "Split s c") auto
  next
    case False
    with Cons Split_nonempty [of s c] show ?thesis
      by (cases "Split s c"; cases "tl (Split s c)") auto
  qed
qed

lemma LastIndex_None_iff: "LastIndex s c = None \<longleftrightarrow> c \<notin> set s"
  by (induction s) (auto split: option.splits)

lemma LastIndex_Some_split:
  "LastIndex s c = Some l \<Longrightarrow>
     s = take l s @ c # drop (Suc l) s \<and> c \<notin> set (drop (Suc l) s)"
proof (induction s arbitrary: l)
  case Nil
  then show ?case by simp
next
  case (Cons x s)
  show ?case
  proof (cases "LastIndex s c")
    case None
    with Cons.prems have "x = c" "l = 0" by (auto split: if_splits)
    with None show ?thesis by (simp add: LastIndex_None_iff)
  next
    case (Some j)
    with Cons.prems have l: "l = Suc j" by simp
    from Cons.IH [OF Some] l show ?thesis by simp
  qed
qed

lemma hd_Split_registryOf: "hd (Split key CHR ''/'') = registryOf key"
proof (induction key)
  case Nil
  then show ?case by (simp add: registryOf_def)
next
  case (Cons x key)
  then show ?case using Split_nonempty [of key "CHR ''/''"]
    by (cases "Split key CHR ''/''"; cases "IndexRune key CHR ''/''")
       (auto simp: registryOf_def)
qed

lemma authKeysForKey_closed:
  "authKeysForKey key =
     map (\<lambda>n. JoinStrings (take n (Split key CHR ''/'')) ''/'')
         (rev [1..<Suc (length (Split key CHR ''/''))])"
proof (induction key rule: authKeysForKey.induct)
  case (1 key)
  show ?case
  proof (cases "LastIndex key CHR ''/''")
    case None
    then have "Split key CHR ''/'' = [key]"
      by (simp add: LastIndex_None_iff Split_no_sep)
    with None show ?thesis by (subst authKeysForKey.simps) simp
  next
    case (Some l)
    define a where "a = take l key"
    define b where "b = drop (Suc l) key"
    define segs where "segs = Split a CHR ''/''"
    from LastIndex_Some_split [OF Some]
    have key: "key = a @ CHR ''/'' # b" and nb: "CHR ''/'' \<notin> set b"
      by (simp_all add: a_def b_def)
    have sk: "Split key CHR ''/'' = segs @ [b]"
      using Split_append [OF nb, of a] key by (simp add: segs_def)
    have ne: "segs \<noteq> []" by (simp add: segs_def Split_nonempty)
    have whole: "JoinStrings (segs @ [b]) ''/'' = key"
      using JoinStrings_Split [of key "CHR ''/''"] sk by simp
    have ih: "authKeysForKey a =
       map (\<lambda>n. JoinStrings (take n segs) ''/'') (rev [1..<Suc (length segs)])"
      using "1.IH" [OF Some] by (simp add: a_def segs_def)
    have "map (\<lambda>n. JoinStrings (take n segs) ''/'') (rev [1..<Suc (length segs)])
        = map (\<lambda>n. JoinStrings (take n (segs @ [b])) ''/'') (rev [1..<Suc (length segs)])"
      by (rule map_cong) auto
    with ih have tail: "authKeysForKey a =
       map (\<lambda>n. JoinStrings (take n (segs @ [b])) ''/'') (rev [1..<Suc (length segs)])"
      by simp
    have "authKeysForKey key = key # authKeysForKey a"
      using Some by (subst authKeysForKey.simps) (simp add: a_def)
    also have "\<dots> = map (\<lambda>n. JoinStrings (take n (segs @ [b])) ''/'')
                        (rev [1..<Suc (Suc (length segs))])"
      using tail whole by simp
    finally show ?thesis using sk by simp
  qed
qed

lemma hd_authKeysForKey: "hd (authKeysForKey key) = key"
  by (subst authKeysForKey.simps) simp

lemma last_authKeysForKey: "last (authKeysForKey key) = registryOf key"
proof -
  define segs where "segs = Split key CHR ''/''"
  have ne: "segs \<noteq> []" by (simp add: segs_def Split_nonempty)
  then obtain s ss where segs: "segs = s # ss" by (cases segs) auto
  have "1 < Suc (length segs)" by (simp add: segs)
  from upt_conv_Cons [OF this]
  have "rev [1..<Suc (length segs)] = rev [Suc 1..<Suc (length segs)] @ [1]"
    by (simp del: upt_Suc)
  then have "last (authKeysForKey key) = JoinStrings (take 1 segs) ''/''"
    by (simp add: authKeysForKey_closed segs_def [symmetric])
  also have "\<dots> = hd segs" by (simp add: segs)
  finally show ?thesis by (simp add: segs_def hd_Split_registryOf)
qed

lemma probeKeys_first:
  "(\<forall>k' \<in> set ks. lookup m k' = None) \<Longrightarrow> lookup m k = Some val \<Longrightarrow>
   probeKeys m (ks @ k # ks') = Some (k, val)"
  by (induction ks) auto

lemma probeKeys_none:
  "(\<forall>k' \<in> set ks. lookup m k' = None) \<Longrightarrow> probeKeys m ks = None"
  by (induction ks) auto

lemma findCredentialsInFile_candidate:
  assumes "parse w p = Inr auths" "lookup (CredHelpers auths) registry = None"
    "(if legacyFormat p then [registry] else authKeysForKey key) = ks @ k # ks'"
    "\<forall>k' \<in> set ks. lookup (AuthConfigs auths) k' = None"
    "lookup (AuthConfigs auths) k = Some val"
  shows "findCredentialsInFile key registry p w = (decodeDockerAuth (path p) k val, w)"
proof -
  from probeKeys_first [OF assms(4) assms(5), of ks'] assms(3)
  have "probeKeys (AuthConfigs auths) (if legacyFormat p then [registry] else authKeysForKey key)
          = Some (k, val)" by simp
  with assms(1,2) show ?thesis
    by (cases "legacyFormat p") (simp_all add: findCredentialsInFile_def)
qed

lemma findCredentialsInFile_fallback:
  assumes "parse w p = Inr auths" "lookup (CredHelpers auths) registry = None"
    "\<forall>k' \<in> set (if legacyFormat p then [registry] else authKeysForKey key).
        lookup (AuthConfigs auths) k' = None"
  shows "findCredentialsInFile key registry p w =
           (case probeNormalized (entries (AuthConfigs auths)) (legacyFormat p)
                   (normalizeRegistry registry) of
              Some (k, v) \<Rightarrow> (decodeDockerAuth (path p) k v, w)
            | None \<Rightarrow> (Inr noCredentials, w))"
proof -
  from probeKeys_none [OF assms(3)]
  have "probeKeys (AuthConfigs auths) (if legacyFormat p then [registry] else authKeysForKey key)
          = None" .
  with assms(1,2) show ?thesis
    by (cases "legacyFormat p") (simp_all add: findCredentialsInFile_def)
qed

text \<open>
  Claim C2. For a file in the modern format the candidate keys are the key itself and
  then the key cut at its last \<open>/\<close>, again and again: written with the segments of the
  key between slashes, all segments, then all but the last, and so on down to the first
  segment alone, which is the registry (\<open>a/b/c\<close>, \<open>a/b\<close>, \<open>a\<close>). For a file in the
  legacy format the only candidate is the registry. When the file parses and names no
  credential helper for the registry, the candidates are probed in that order: the first
  one that has an entry is decoded and returned, whatever the other entries are, and the
  pass over normalized keys runs only when no candidate has an entry.
\<close>

theorem entry_matcher_candidates:
  "authKeysForKey key =
     map (\<lambda>n. JoinStrings (take n (Split key CHR ''/'')) ''/'')
         (rev [1..<Suc (length (Split key CHR ''/''))])
   \<and> hd (authKeysForKey key) = key
   \<and> last (authKeysForKey key) = registryOf key
   \<and> authKeysForKey ''a/b/c'' = [''a/b/c'', ''a/b'', ''a'']
   \<and> (parse w p = Inr auths \<and> lookup (CredHelpers auths) registry = None \<longrightarrow>
        (\<forall>ks k val ks'.
           (if legacyFormat p then [registry] else authKeysForKey key) = ks @ k # ks'
           \<and> (\<forall>k' \<in> set ks. lookup (AuthConfigs auths) k' = None)
           \<and> lookup (AuthConfigs auths) k = Some val
           \<longrightarrow> findCredentialsInFile key registry p w = (decodeDockerAuth (path p) k val, w))
        \<and> ((\<forall>k' \<in> set (if legacyFormat p then [registry] else authKeysForKey key).
               lookup (AuthConfigs auths) k' = None)
           \<longrightarrow> findCredentialsInFile key registry p w =
                 (case probeNormalized (entries (AuthConfigs auths)) (legacyFormat p)
                         (normalizeRegistry registry) of
                    Some (k, v) \<Rightarrow> (decodeDockerAuth (path p) k v, w)
                  | None \<Rightarrow> (Inr noCredentials, w))))"
proof -
  have ex: "authKeysForKey ''a/b/c'' = [''a/b/c'', ''a/b'', ''a'']"
    by (simp add: authKeysForKey.simps)
  show ?thesis
    using authKeysForKey_closed [of key] hd_authKeysForKey [of key] last_authKeysForKey [of key]
      ex findCredentialsInFile_candidate [of w p auths registry key]
      findCredentialsInFile_fallback [of w p auths registry key]
    by blast
qed

text \<open>
  Claim C2 on the sample file: for \<open>quay.io/team/img\<close> the namespace entry wins over the
  registry entry, and for \<open>quay.io\<close> the exact entry wins over the URL entry that the
  pass over normalized keys would meet first. On the legacy file, whose only key is a
  URL, the single candidate \<open>docker.io\<close> has no entry and the pass over normalized keys
  finds the credentials.
\<close>

theorem entry_matcher_candidates_witness:
  "findCredentialsInFile ''quay.io/team/img'' ''quay.io''
      \<lparr>path = ''/run/containers/1000/auth.json'', legacyFormat = False\<rparr> teamWorld
     = (Inr \<lparr>Username = ''bob'', Password = ''r2'', IdentityToken = []\<rparr>, teamWorld)
   \<and> findCredentialsInFile ''quay.io'' ''quay.io''
      \<lparr>path = ''/run/containers/1000/auth.json'', legacyFormat = False\<rparr> teamWorld
     = (Inr \<lparr>Username = ''alice'', Password = ''r1'', IdentityToken = []\<rparr>, teamWorld)
   \<and> findCredentialsInFile ''docker.io/library/alpine'' ''docker.io''
      \<lparr>path = ''/home/u/.dockercfg'', legacyFormat = True\<rparr> legacyWorld
     = (Inr \<lparr>Username = ''u'', Password = ''p'', IdentityToken = []\<rparr>, legacyWorld)"
proof -
  define p where "p = \<lparr>path = ''/run/containers/1000/auth.json'', legacyFormat = False\<rparr>"
  define auths where "auths =
     \<lparr>AuthConfigs =
        Some [(''https://quay.io/v1/'', \<lparr>Auth = ''Y2Fyb2w6cjM='', IdentityToken_conf = []\<rparr>),
              (''quay.io'', \<lparr>Auth = ''YWxpY2U6cjE='', IdentityToken_conf = []\<rparr>),
              (''quay.io/team'', \<lparr>Auth = ''Ym9iOnIy'', IdentityToken_conf = []\<rparr>)],
      CredHelpers = Some []\<rparr>"
  have pa: "parse teamWorld p = Inr auths \<and> lookup (CredHelpers auths) ''quay.io'' = None"
    by (simp add: parse_def teamWorld_def p_def auths_def lookup_def json_eval)
  have k1: "(if legacyFormat p then [''quay.io''] else authKeysForKey ''quay.io/team/img'')
              = [''quay.io/team/img''] @ ''quay.io/team'' # [''quay.io'']
            \<and> (\<forall>k' \<in> set [''quay.io/team/img'']. lookup (AuthConfigs auths) k' = None)
            \<and> lookup (AuthConfigs auths) ''quay.io/team''
                = Some \<lparr>Auth = ''Ym9iOnIy'', IdentityToken_conf = []\<rparr>"
    by (simp add: p_def auths_def lookup_def authKeysForKey.simps)
  have k2: "(if legacyFormat p then [''quay.io''] else authKeysForKey ''quay.io'')
              = [] @ ''quay.io'' # []
            \<and> (\<forall>k' \<in> set []. lookup (AuthConfigs auths) k' = None)
            \<and> lookup (AuthConfigs auths) ''quay.io''
                = Some \<lparr>Auth = ''YWxpY2U6cjE='', IdentityToken_conf = []\<rparr>"
    by (simp add: p_def auths_def lookup_def authKeysForKey.simps)
  have d1: "decodeDockerAuth (path p) ''quay.io/team'' \<lparr>Auth = ''Ym9iOnIy'', IdentityToken_conf = []\<rparr>
              = Inr \<lparr>Username = ''bob'', Password = ''r2'', IdentityToken = []\<rparr>"
    by (simp add: decodeDockerAuth_def DecodeString_def dec6_def encodeStd_def Cut_def
        Trim_def TrimLeft_def TrimRight_def NUL_def char_of_eq_iff take_bit_eq_mod)
  have d2: "decodeDockerAuth (path p) ''quay.io'' \<lparr>Auth = ''YWxpY2U6cjE='', IdentityToken_conf = []\<rparr>
              = Inr \<lparr>Username = ''alice'', Password = ''r1'', IdentityToken = []\<rparr>"
    by (simp add: decodeDockerAuth_def DecodeString_def dec6_def encodeStd_def Cut_def
        Trim_def TrimLeft_def TrimRight_def NUL_def char_of_eq_iff take_bit_eq_mod)
  from entry_matcher_candidates [of "''quay.io/team/img''" teamWorld p auths "''quay.io''"] pa k1
  have 1: "findCredentialsInFile ''quay.io/team/img'' ''quay.io'' p teamWorld
     = (decodeDockerAuth (path p) ''quay.io/team'' \<lparr>Auth = ''Ym9iOnIy'', IdentityToken_conf = []\<rparr>, teamWorld)"
    by blast
  from entry_matcher_candidates [of "''quay.io''" teamWorld p auths "''quay.io''"] pa k2
  have 2: "findCredentialsInFile ''quay.io'' ''quay.io'' p teamWorld
     = (decodeDockerAuth (path p) ''quay.io'' \<lparr>Auth = ''YWxpY2U6cjE='', IdentityToken_conf = []\<rparr>, teamWorld)"
    by blast
  define q where "q = \<lparr>path = ''/home/u/.dockercfg'', legacyFormat = True\<rparr>"
  define old where "old =
     \<lparr>AuthConfigs = Some [(''https://index.docker.io/v1/'',
                            \<lparr>Auth = ''dTpw'', IdentityToken_conf = []\<rparr>)],
      CredHelpers = None\<rparr>"
  have pq: "parse legacyWorld q = Inr old \<and> lookup (CredHelpers old) ''docker.io'' = None"
    by (simp add: parse_def legacyWorld_def q_def old_def lookup_def json_eval)
  have k3: "\<forall>k' \<in> set (if legacyFormat q then [''docker.io'']
                          else authKeysForKey ''docker.io/library/alpine'').
               lookup (AuthConfigs old) k' = None"
    by (simp add: q_def old_def lookup_def)
  have n3: "probeNormalized (entries (AuthConfigs old)) (legacyFormat q)
              (normalizeRegistry ''docker.io'')
            = Some (''https://index.docker.io/v1/'', \<lparr>Auth = ''dTpw'', IdentityToken_conf = []\<rparr>)"
    by (simp add: q_def old_def entries_def normalizeRegistry_def normalizeAuthFileKey_def
          TrimPrefix_def HasPrefix_def Cut_def)
  have d3: "decodeDockerAuth (path q) ''https://index.docker.io/v1/''
               \<lparr>Auth = ''dTpw'', IdentityToken_conf = []\<rparr>
              = Inr \<lparr>Username = ''u'', Password = ''p'', IdentityToken = []\<rparr>"
    by (simp add: decodeDockerAuth_def DecodeString_def dec6_def encodeStd_def Cut_def
        Trim_def TrimLeft_def TrimRight_def NUL_def char_of_eq_iff take_bit_eq_mod)
  from entry_matcher_candidates [of "''docker.io/library/alpine''" legacyWorld q old "''docker.io''"]
    pq k3
  have "findCredentialsInFile ''docker.io/library/alpine'' ''docker.io'' q legacyWorld =
          (case probeNormalized (entries (AuthConfigs old)) (legacyFormat q)
                  (normalizeRegistry ''docker.io'') of
             Some (k, v) \<Rightarrow> (decodeDockerAuth (path q) k v, legacyWorld)
           | None \<Rightarrow> (Inr noCredentials, legacyWorld))"
    by blast
  with n3 d3 have 3: "findCredentialsInFile ''docker.io/library/alpine'' ''docker.io'' q legacyWorld
      = (Inr \<lparr>Username = ''u'', Password = ''p'', IdentityToken = []\<rparr>, legacyWorld)"
    by simp
  from 1 2 3 d1 d2 show ?thesis by (simp add: p_def q_def)
qed

section \<open>The resolution engine\<close>

lemma multierror_Append_Multi:
  "multierror_Append (Some (Multi es)) e = Some (Multi (es @ flatten e))"
  by (simp add: multierror_Append_def)

lemma multierror_Append_None:
  "multierror_Append None e = Some (Multi (flatten e))"
  by (simp add: multierror_Append_def)

lemma getCredentialsLoop_errors_kept:
  "getCredentialsLoop sys key registry homeDir hs (Some (Multi es)) w = (r, w') \<Longrightarrow>
     (\<exists>es'. r = Inl (Multi (es @ es'))) \<or> (\<exists>c. r = Inr c \<and> c \<noteq> noCredentials)"
proof (induction hs arbitrary: es w)
  case Nil
  then show ?case by auto
next
  case (Cons h hs)
  define step where "step =
     (if h = AuthenticationFileHelper then
              (case getCredentialsFromAuthFiles key registry
                      (getAuthFilePaths w sys homeDir) w of
                 (Inl e, w') \<Rightarrow> (Inl e, w')
               | (Inr (creds, credHelperPath), w') \<Rightarrow> (Inr creds, w'))
            else getAuthFromCredHelper h registry w)"
  obtain sr w1 where s: "step = (sr, w1)" by (cases step)
  show ?case
  proof (cases sr)
    case (Inl e)
    with Cons.prems s have
      "getCredentialsLoop sys key registry homeDir hs (Some (Multi (es @ flatten e))) w1 = (r, w')"
      by (simp add: step_def [symmetric] multierror_Append_Multi)
    from Cons.IH [OF this] show ?thesis by auto
  next
    case (Inr creds)
    show ?thesis
    proof (cases "creds = noCredentials")
      case True
      with Cons.prems s Inr have
        "getCredentialsLoop sys key registry homeDir hs (Some (Multi es)) w1 = (r, w')"
        by (simp add: step_def [symmetric])
      from Cons.IH [OF this] show ?thesis .
    next
      case False
      with Cons.prems s Inr have "r = Inr creds" by (simp add: step_def [symmetric])
      with False show ?thesis by simp
    qed
  qed
qed





text \<open>An auth file that cannot be decoded.\<close>

lemma getCredentialsFromAuthFiles_skip_absent:
  "\<forall>q \<in> set pre. files w (path q) = None \<Longrightarrow>
     getCredentialsFromAuthFiles key registry (pre @ ps) w
       = getCredentialsFromAuthFiles key registry ps w"
  by (induction pre) (simp_all add: findCredentialsInFile_absent)

lemma emptyFileHelperWorld_paths:
  "getAuthFilePaths emptyFileHelperWorld None ''/home/u'' =
     [\<lparr>path = ''/run/containers/1000/auth.json'', legacyFormat = False\<rparr>,
      \<lparr>path = ''/home/u/.config/containers/auth.json'', legacyFormat = False\<rparr>,
      \<lparr>path = ''/home/u/.docker/config.json'', legacyFormat = False\<rparr>,
      \<lparr>path = ''/home/u/.dockercfg'', legacyFormat = True\<rparr>]"
  by (simp add: path_eval baseWorld_def emptyFileWorld_def emptyFileHelperWorld_def)

text \<open>
  Claim C9, as the code has it. A file that does not exist parses to a document without
  error, and the lookup over the auth files goes on to the paths after it. A file that
  exists but cannot be decoded (zero bytes, or text that is not JSON) makes \<open>parse\<close>
  fail; the lookup over the auth files then stops with that error, whatever the later
  paths hold, also when the file comes after paths that do not exist. The helper loop
  does not stop: it appends the error to the accumulated ones and goes on with the
  helpers after the file backend. So \<open>GetCredentials\<close>, with the file backend first in
  the chain and no credentials in the context, either fails with an aggregate that starts
  with this error or returns the non-empty credentials a later helper found; with no
  later helper it fails.
\<close>

theorem absent_skipped_invalid_aborts:
  "(files w (path p) = None \<longrightarrow>
      (\<exists>d. parse w p = Inr d)
      \<and> getCredentialsFromAuthFiles key registry (p # ps) w
          = getCredentialsFromAuthFiles key registry ps w)
   \<and> (files w (path p) = Some (Readable raw) \<and> undecodable p raw \<longrightarrow>
      parse w p = Inl (Wrapped (''unmarshaling JSON at '' @ path p) JSONSyntaxError)
      \<and> getCredentialsFromAuthFiles key registry (p # ps) w
          = (Inl (Wrapped (''reading JSON file '' @ path p)
                    (Wrapped (''unmarshaling JSON at '' @ path p) JSONSyntaxError)), w)
      \<and> ((\<forall>q \<in> set pre. files w (path q) = None) \<longrightarrow>
           getCredentialsFromAuthFiles key registry (pre @ p # ps) w
             = (Inl (Wrapped (''reading JSON file '' @ path p)
                       (Wrapped (''unmarshaling JSON at '' @ path p) JSONSyntaxError)), w)
           \<and> (getAuthFilePaths w sys homeDir = pre @ p # ps \<longrightarrow>
                getCredentialsLoop sys key registry homeDir (AuthenticationFileHelper # rest)
                    multiErr w
                  = getCredentialsLoop sys key registry homeDir rest
                      (multierror_Append multiErr
                         (Wrapped (''reading JSON file '' @ path p)
                            (Wrapped (''unmarshaling JSON at '' @ path p) JSONSyntaxError))) w)
           \<and> (validateKey key = Inr ns
               \<and> (case sys of None \<Rightarrow> None | Some s \<Rightarrow> DockerAuthConfig s) = None
               \<and> credentialHelpers w sys = Inr (AuthenticationFileHelper # rest)
               \<and> getAuthFilePaths w sys (homedir w) = pre @ p # ps \<longrightarrow>
                ((\<exists>es w'. GetCredentials sys key w
                     = (Inl (Multi (Wrapped (''reading JSON file '' @ path p)
                          (Wrapped (''unmarshaling JSON at '' @ path p) JSONSyntaxError) # es)),
                        w'))
                  \<or> (\<exists>c w'. GetCredentials sys key w = (Inr c, w') \<and> c \<noteq> noCredentials))
                \<and> (rest = [] \<longrightarrow>
                     GetCredentials sys key w
                       = (Inl (Multi [Wrapped (''reading JSON file '' @ path p)
                            (Wrapped (''unmarshaling JSON at '' @ path p) JSONSyntaxError)]),
                          w)))))"
proof -
  define E where "E = Wrapped (''reading JSON file '' @ path p)
                        (Wrapped (''unmarshaling JSON at '' @ path p) JSONSyntaxError)"
  have A: "(\<exists>d. parse w p = Inr d)
      \<and> getCredentialsFromAuthFiles key registry (p # ps) w
          = getCredentialsFromAuthFiles key registry ps w"
    if "files w (path p) = None"
    using that by (simp add: parse_absent findCredentialsInFile_absent)
  have B: "parse w p = Inl (Wrapped (''unmarshaling JSON at '' @ path p) JSONSyntaxError)"
    if "files w (path p) = Some (Readable raw) \<and> undecodable p raw"
    using that by (simp add: parse_undecodable)
  have C: "getCredentialsFromAuthFiles key registry (p # ps) w = (Inl E, w)"
    if "files w (path p) = Some (Readable raw) \<and> undecodable p raw" for registry
    using B [OF that] by (simp add: findCredentialsInFile_parse_error E_def)
  have D: "getCredentialsFromAuthFiles key registry (pre @ p # ps) w = (Inl E, w)"
    if "files w (path p) = Some (Readable raw) \<and> undecodable p raw"
      and "\<forall>q \<in> set pre. files w (path q) = None" for registry
    using getCredentialsFromAuthFiles_skip_absent [OF that(2)] C [OF that(1)]
    by (simp del: getCredentialsFromAuthFiles.simps)
  have L: "getCredentialsLoop sys key registry homeDir (AuthenticationFileHelper # rest) multiErr w
            = getCredentialsLoop sys key registry homeDir rest (multierror_Append multiErr E) w"
    if "files w (path p) = Some (Readable raw) \<and> undecodable p raw"
      and "\<forall>q \<in> set pre. files w (path q) = None"
      and "getAuthFilePaths w sys homeDir = pre @ p # ps" for homeDir multiErr registry
    using that(3) D [OF that(1,2)] by (simp del: getCredentialsFromAuthFiles.simps)
  have G: "((\<exists>es w'. GetCredentials sys key w = (Inl (Multi (E # es)), w'))
             \<or> (\<exists>c w'. GetCredentials sys key w = (Inr c, w') \<and> c \<noteq> noCredentials))
          \<and> (rest = [] \<longrightarrow> GetCredentials sys key w = (Inl (Multi [E]), w))"
    if bad: "files w (path p) = Some (Readable raw) \<and> undecodable p raw"
      and absent: "\<forall>q \<in> set pre. files w (path q) = None"
      and h: "validateKey key = Inr ns
          \<and> (case sys of None \<Rightarrow> None | Some s \<Rightarrow> DockerAuthConfig s) = None
          \<and> credentialHelpers w sys = Inr (AuthenticationFileHelper # rest)
          \<and> getAuthFilePaths w sys (homedir w) = pre @ p # ps"
  proof -
    from h have paths: "getAuthFilePaths w sys (homedir w) = pre @ p # ps" by simp
    have g: "GetCredentials sys key w =
        getCredentialsLoop sys key (registryOf key) (homedir w) rest (Some (Multi [E])) w"
      using h L [OF bad absent paths]
      by (simp add: GetCredentials_def getCredentialsWithHomeDir_def multierror_Append_None
            E_def del: getCredentialsLoop.simps)
    obtain r w' where rw: "getCredentialsLoop sys key (registryOf key) (homedir w) rest
            (Some (Multi [E])) w = (r, w')"
      by (cases "getCredentialsLoop sys key (registryOf key) (homedir w) rest
            (Some (Multi [E])) w")
    from getCredentialsLoop_errors_kept [OF rw] g rw
    have a: "(\<exists>es w'. GetCredentials sys key w = (Inl (Multi (E # es)), w'))
             \<or> (\<exists>c w'. GetCredentials sys key w = (Inr c, w') \<and> c \<noteq> noCredentials)"
      by auto
    have b: "rest = [] \<longrightarrow> GetCredentials sys key w = (Inl (Multi [E]), w)"
      using g by simp
    from a b show ?thesis by blast
  qed
  from A B C D L G show ?thesis unfolding E_def by blast
qed


text \<open>
  Claim C9 as stated says that an existing empty file aborts the lookup of
  \<open>GetCredentials\<close> with an error. On the sample host with a primary auth file of zero
  bytes and a helper program after the file backend, \<open>parse\<close> fails on the file, and
  \<open>GetCredentials\<close> for \<open>quay.io\<close> returns the credentials the program holds, without
  error.
\<close>

theorem absent_skipped_invalid_aborts_counterexample:
  "files emptyFileHelperWorld ''/run/containers/1000/auth.json'' = Some (Readable notJSON)
   \<and> hd (getAuthFilePaths emptyFileHelperWorld None (homedir emptyFileHelperWorld))
       = \<lparr>path = ''/run/containers/1000/auth.json'', legacyFormat = False\<rparr>
   \<and> parse emptyFileHelperWorld
         \<lparr>path = ''/run/containers/1000/auth.json'', legacyFormat = False\<rparr>
       = Inl (Wrapped ''unmarshaling JSON at /run/containers/1000/auth.json'' JSONSyntaxError)
   \<and> fst (GetCredentials None ''quay.io'' emptyFileHelperWorld)
       = Inr \<lparr>Username = ''dave'', Password = ''r4'', IdentityToken = []\<rparr>"
proof -
  define p where "p = \<lparr>path = ''/run/containers/1000/auth.json'', legacyFormat = False\<rparr>"
  define ps where "ps =
     [\<lparr>path = ''/home/u/.config/containers/auth.json'', legacyFormat = False\<rparr>,
      \<lparr>path = ''/home/u/.docker/config.json'', legacyFormat = False\<rparr>,
      \<lparr>path = ''/home/u/.dockercfg'', legacyFormat = True\<rparr>]"
  have f: "files emptyFileHelperWorld ''/run/containers/1000/auth.json'' = Some (Readable notJSON)"
    by (simp add: emptyFileHelperWorld_def emptyFileWorld_def)
  have h: "homedir emptyFileHelperWorld = ''/home/u''"
    by (simp add: emptyFileHelperWorld_def emptyFileWorld_def baseWorld_def)
  have paths: "getAuthFilePaths emptyFileHelperWorld None ''/home/u'' = p # ps"
    using emptyFileHelperWorld_paths by (simp add: p_def ps_def)
  have pe: "parse emptyFileHelperWorld p
       = Inl (Wrapped ''unmarshaling JSON at /run/containers/1000/auth.json'' JSONSyntaxError)"
    using parse_undecodable [of emptyFileHelperWorld p notJSON] f
    by (simp add: p_def undecodable_def notJSON_def)
  have ff: "getCredentialsFromAuthFiles ''quay.io'' ''quay.io'' (p # ps) emptyFileHelperWorld
      = (Inl (Wrapped (''reading JSON file '' @ path p)
           (Wrapped ''unmarshaling JSON at /run/containers/1000/auth.json'' JSONSyntaxError)),
         emptyFileHelperWorld)"
    using findCredentialsInFile_parse_error [OF pe] by simp
  have k: "validateKey ''quay.io'' = Inr False"
    by (simp add: validateKey_def HasPrefix_def ContainsRune_def)
  have c: "credentialHelpers emptyFileHelperWorld None = Inr [AuthenticationFileHelper, ''pass'']"
    by (simp add: emptyFileHelperWorld_def)
  have "\<exists>w1. getAuthFromCredHelper ''pass'' ''quay.io'' emptyFileHelperWorld
             = (Inr \<lparr>Username = ''dave'', Password = ''r4'', IdentityToken = []\<rparr>, w1)"
    by (simp add: getAuthFromCredHelper_def helperGet_def emptyFileHelperWorld_def
          passProgram_def logCall_def)
  then obtain w1 where e: "getAuthFromCredHelper ''pass'' ''quay.io'' emptyFileHelperWorld
             = (Inr \<lparr>Username = ''dave'', Password = ''r4'', IdentityToken = []\<rparr>, w1)"
    by blast
  have r: "registryOf ''quay.io'' = ''quay.io''" by (simp add: registryOf_def)
  have "fst (GetCredentials None ''quay.io'' emptyFileHelperWorld)
       = Inr \<lparr>Username = ''dave'', Password = ''r4'', IdentityToken = []\<rparr>"
    using k c h paths ff e r
    by (simp add: GetCredentials_def getCredentialsWithHomeDir_def AuthenticationFileHelper_def
          noCredentials_def del: getCredentialsFromAuthFiles.simps)
  with f h paths pe show ?thesis by (simp add: p_def)
qed

text \<open>
  The amended claim C9 on the sample host: the missing legacy file is passed over, and
  with a primary auth file of zero bytes and no helper after the file backend
  \<open>GetCredentials\<close> fails with the error of the file.
\<close>

theorem absent_skipped_invalid_aborts_witness:
  "getCredentialsFromAuthFiles ''quay.io'' ''quay.io''
      [\<lparr>path = ''/home/u/.dockercfg'', legacyFormat = True\<rparr>] baseWorld
     = (Inr (noCredentials, []), baseWorld)
   \<and> GetCredentials None ''quay.io'' emptyFileWorld
     = (Inl (Multi [Wrapped ''reading JSON file /run/containers/1000/auth.json''
                     (Wrapped ''unmarshaling JSON at /run/containers/1000/auth.json''
                        JSONSyntaxError)]), emptyFileWorld)"
proof -
  have a: "files baseWorld (path \<lparr>path = ''/home/u/.dockercfg'', legacyFormat = True\<rparr>) = None"
    by (simp add: baseWorld_def)
  have b: "files emptyFileWorld (path \<lparr>path = ''/run/containers/1000/auth.json'', legacyFormat = False\<rparr>)
             = Some (Readable notJSON)
           \<and> undecodable \<lparr>path = ''/run/containers/1000/auth.json'', legacyFormat = False\<rparr> notJSON"
    by (simp add: emptyFileWorld_def undecodable_def notJSON_def)
  have n: "\<forall>q \<in> set ([] :: authPath list). files emptyFileWorld (path q) = None" by simp
  have c: "validateKey ''quay.io'' = Inr False
           \<and> (case None :: SystemContext option of None \<Rightarrow> None | Some s \<Rightarrow> DockerAuthConfig s) = None
           \<and> credentialHelpers emptyFileWorld None = Inr (AuthenticationFileHelper # [])
           \<and> getAuthFilePaths emptyFileWorld None (homedir emptyFileWorld) =
               [] @ \<lparr>path = ''/run/containers/1000/auth.json'', legacyFormat = False\<rparr>
               # [\<lparr>path = ''/home/u/.config/containers/auth.json'', legacyFormat = False\<rparr>,
                  \<lparr>path = ''/home/u/.docker/config.json'', legacyFormat = False\<rparr>,
                  \<lparr>path = ''/home/u/.dockercfg'', legacyFormat = True\<rparr>]"
    using emptyFileWorld_paths
    by (simp add: validateKey_def HasPrefix_def ContainsRune_def emptyFileWorld_def baseWorld_def)
  from absent_skipped_invalid_aborts
         [of baseWorld "\<lparr>path = ''/home/u/.dockercfg'', legacyFormat = True\<rparr>"
             "''quay.io''" "''quay.io''" "[]"] a
  have 1: "getCredentialsFromAuthFiles ''quay.io'' ''quay.io''
      [\<lparr>path = ''/home/u/.dockercfg'', legacyFormat = True\<rparr>] baseWorld
     = (Inr (noCredentials, []), baseWorld)"
    by (simp del: getCredentialsFromAuthFiles.simps(2))
  from absent_skipped_invalid_aborts
         [of emptyFileWorld "\<lparr>path = ''/run/containers/1000/auth.json'', legacyFormat = False\<rparr>"
             "''quay.io''" _ _ notJSON "[]" None _ "[]" _ False] b n c
  have 2: "GetCredentials None ''quay.io'' emptyFileWorld
     = (Inl (Multi [Wrapped ''reading JSON file /run/containers/1000/auth.json''
                     (Wrapped ''unmarshaling JSON at /run/containers/1000/auth.json''
                        JSONSyntaxError)]), emptyFileWorld)"
    by simp
  from 1 2 show ?thesis by simp
qed

section \<open>Storing under a namespaced key\<close>

lemma validateKey_namespaced:
  "validateKey key = Inr ns \<Longrightarrow> ns = (CHR ''/'' \<in> set key)"
proof (cases "IndexRune key CHR ''/''")
  case None
  assume v: "validateKey key = Inr ns"
  from None have "CHR ''/'' \<notin> set key" by (simp add: IndexRune_None_iff)
  with None v show ?thesis by (simp add: validateKey_def split: if_splits)
next
  case (Some i)
  assume v: "validateKey key = Inr ns"
  from Some have "IndexRune key CHR ''/'' \<noteq> None" by simp
  then have "CHR ''/'' \<in> set key" by (simp add: IndexRune_None_iff)
  with Some v show ?thesis by (simp add: validateKey_def split: if_splits)
qed

lemma setCredentialsLoop_namespaced_external:
  "AuthenticationFileHelper \<notin> set hs \<Longrightarrow>
   setCredentialsLoop sys key True username password hs (Some (Multi es)) w
     = (Inl (Multi (es @ map NamespaceUnsupported hs)), w)"
proof (induction hs arbitrary: es)
  case Nil
  then show ?case by simp
next
  case (Cons h hs)
  from Cons.prems have h: "h \<noteq> AuthenticationFileHelper"
    and r: "AuthenticationFileHelper \<notin> set hs" by auto
  from Cons.IH [OF r, of "es @ [NamespaceUnsupported h]"] h show ?case
    by (simp add: unsupportedNamespaceErr_def multierror_Append_Multi flatten_def)
qed

text \<open>
  Claim C8. For a valid key that contains \<open>/\<close> and a non-empty helper chain without
  the file backend, \<open>SetCredentials\<close> fails with the aggregate of one
  namespace-unsupported error per helper, in chain order, and leaves the world as it
  was: no helper program is run and no table changes.
\<close>

theorem SetCredentials_namespaced_external:
  assumes "validateKey key = Inr ns" and "CHR ''/'' \<in> set key"
    and "credentialHelpers w sys = Inr hs" and "hs \<noteq> []"
    and "AuthenticationFileHelper \<notin> set hs"
  shows "SetCredentials sys key username password w
           = (Inl (Multi (map NamespaceUnsupported hs)), w)
         \<and> calls (snd (SetCredentials sys key username password w)) = calls w
         \<and> programs (snd (SetCredentials sys key username password w)) = programs w"
proof -
  from validateKey_namespaced [OF assms(1)] assms(2) have ns: "ns = True" by simp
  from assms(4) obtain h rest where hs: "hs = h # rest" by (cases hs) auto
  with assms(5) have h: "h \<noteq> AuthenticationFileHelper" and r: "AuthenticationFileHelper \<notin> set rest"
    by auto
  have "setCredentialsLoop sys key True username password (h # rest) None w
          = (Inl (Multi ([NamespaceUnsupported h] @ map NamespaceUnsupported rest)), w)"
    using h setCredentialsLoop_namespaced_external [OF r, of sys key username password "[NamespaceUnsupported h]" w]
    by (simp add: unsupportedNamespaceErr_def multierror_Append_None flatten_def)
  with assms(1,3) ns hs show ?thesis
    by (simp add: SetCredentials_def del: setCredentialsLoop.simps)
qed

text \<open>Claim C8 on a host with two external helpers.\<close>

theorem SetCredentials_namespaced_external_witness:
  "SetCredentials None ''quay.io/team'' ''bob'' ''r2'' externalOnlyWorld
     = (Inl (Multi [NamespaceUnsupported ''pass'', NamespaceUnsupported ''secretservice'']),
        externalOnlyWorld)"
proof -
  have v: "validateKey ''quay.io/team'' = Inr True"
    by (simp add: validateKey_def HasPrefix_def ContainsRune_def)
  have s: "CHR ''/'' \<in> set ''quay.io/team''" by simp
  have c: "credentialHelpers externalOnlyWorld None = Inr [''pass'', ''secretservice'']"
    by (simp add: externalOnlyWorld_def)
  have n: "[''pass'', ''secretservice''] \<noteq> []" by simp
  have f: "AuthenticationFileHelper \<notin> set [''pass'', ''secretservice'']"
    by (simp add: AuthenticationFileHelper_def)
  from SetCredentials_namespaced_external [OF v s c n f, of "''bob''" "''r2''"]
  show ?thesis by simp
qed

section \<open>Base64 round trip\<close>

text \<open>Decoding what \<open>EncodeToString\<close> produced gives the bytes back.\<close>

lemma IndexRune_nth:
  "distinct xs \<Longrightarrow> i < length xs \<Longrightarrow> IndexRune xs (xs ! i) = Some i"
proof (induction xs arbitrary: i)
  case Nil
  then show ?case by simp
next
  case (Cons x xs)
  show ?case
  proof (cases i)
    case 0
    then show ?thesis by simp
  next
    case (Suc j)
    with Cons.prems have "xs ! j \<in> set xs" by simp
    with Cons.prems have "x \<noteq> xs ! j" by auto
    with Cons Suc show ?thesis by simp
  qed
qed

lemma distinct_encodeStd: "distinct encodeStd"
  by (simp add: encodeStd_def)

lemma length_encodeStd: "length encodeStd = 64"
  by (simp add: encodeStd_def)

lemma dec6_enc6: "dec6 (enc6 n) = Some (n mod 64)"
  unfolding dec6_def enc6_def
  by (rule IndexRune_nth [OF distinct_encodeStd]) (simp add: length_encodeStd)

lemma enc6_in_alphabet: "enc6 n \<in> set encodeStd"
  unfolding enc6_def by (rule nth_mem) (simp add: length_encodeStd)

lemma enc6_not_special:
  "enc6 n \<noteq> CHR ''=''" "enc6 n \<noteq> CHR 0x0A" "enc6 n \<noteq> CHR 0x0D"
proof -
  have "CHR ''='' \<notin> set encodeStd" "CHR 0x0A \<notin> set encodeStd" "CHR 0x0D \<notin> set encodeStd"
    by (simp_all add: encodeStd_def)
  with enc6_in_alphabet [of n] show "enc6 n \<noteq> CHR ''=''" "enc6 n \<noteq> CHR 0x0A" "enc6 n \<noteq> CHR 0x0D"
    by auto
qed

lemma enc6_ascii: "of_char (enc6 n) < (128 :: nat)"
proof -
  have "\<forall>c \<in> set encodeStd. of_char c < (128 :: nat)" by (simp add: encodeStd_def)
  with enc6_in_alphabet [of n] show ?thesis by blast
qed

lemma EncodeToString_ascii: "\<forall>c \<in> set (EncodeToString s). of_char c < (128 :: nat)"
  by (induction s rule: EncodeToString.induct) (simp_all add: Let_def enc6_ascii)

lemma EncodeToString_no_newline:
  "filter (\<lambda>c. c \<noteq> CHR 0x0A \<and> c \<noteq> CHR 0x0D) (EncodeToString s) = EncodeToString s"
  by (induction s rule: EncodeToString.induct) (simp_all add: Let_def enc6_not_special)

lemma digits24:
  fixes v :: nat
  assumes "v < 16777216"
  shows "(v div 262144) mod 64 * 262144 + (v div 4096) mod 64 * 4096
           + (v div 64) mod 64 * 64 + v mod 64 = v"
proof -
  define a where "a = v div 64"
  define b where "b = a div 64"
  define c where "c = b div 64"
  have a4096: "v div 4096 = b"
    using div_mult2_eq [of v 64 64] by (simp add: a_def b_def)
  have a262144: "v div 262144 = c"
    using div_mult2_eq [of v 4096 64] a4096 by (simp add: c_def)
  have "c < 64" using assms a262144 [symmetric] by (simp add: less_mult_imp_div_less)
  then have c: "c mod 64 = c" by simp
  have 1: "v = 64 * a + v mod 64" by (simp add: a_def)
  have 2: "a = 64 * b + a mod 64" by (simp add: b_def)
  have 3: "b = 64 * c + b mod 64" by (simp add: c_def)
  have "c * 262144 + b mod 64 * 4096 + a mod 64 * 64 + v mod 64 = v"
    using 1 2 3 by linarith
  then show ?thesis by (simp add: a4096 a262144 c a_def [symmetric])
qed

lemma bytes3:
  fixes x y z :: nat
  assumes "x < 256" "y < 256" "z < 256"
  shows "x * 65536 + y * 256 + z < 16777216"
    and "(x * 65536 + y * 256 + z) div 65536 = x"
    and "(x * 65536 + y * 256 + z) div 256 mod 256 = y"
    and "(x * 65536 + y * 256 + z) mod 256 = z"
proof -
  show "x * 65536 + y * 256 + z < 16777216" using assms by linarith
  show "(x * 65536 + y * 256 + z) div 65536 = x"
    by (rule div_nat_eqI) (use assms in simp_all)
  have "(x * 65536 + y * 256 + z) div 256 = x * 256 + y"
    by (rule div_nat_eqI) (use assms in simp_all)
  then show "(x * 65536 + y * 256 + z) div 256 mod 256 = y"
    using assms by simp
  have "x * 65536 + y * 256 + z = z + 256 * (x * 256 + y)" by simp
  then have "(x * 65536 + y * 256 + z) mod 256 = z mod 256"
    by (simp only: mod_mult_self2)
  then show "(x * 65536 + y * 256 + z) mod 256 = z" using assms by simp
qed


lemma decodeQuanta_full:
  "decodeQuanta (enc6 i # enc6 j # enc6 k # enc6 l # r) =
     map_option
       (\<lambda>out. char_of ((i mod 64 * 262144 + j mod 64 * 4096 + k mod 64 * 64 + l mod 64) div 65536)
               # char_of ((i mod 64 * 262144 + j mod 64 * 4096 + k mod 64 * 64 + l mod 64) div 256)
               # char_of (i mod 64 * 262144 + j mod 64 * 4096 + k mod 64 * 64 + l mod 64) # out)
       (decodeQuanta r)"
  by (simp add: dec6_enc6 enc6_not_special Let_def)

lemma decodeQuanta_pad1:
  "decodeQuanta [enc6 i, enc6 j, enc6 k, CHR ''=''] =
     Some [char_of ((i mod 64 * 262144 + j mod 64 * 4096 + k mod 64 * 64) div 65536),
           char_of ((i mod 64 * 262144 + j mod 64 * 4096 + k mod 64 * 64) div 256)]"
  by (simp add: dec6_enc6 enc6_not_special Let_def)

lemma decodeQuanta_pad2:
  "decodeQuanta [enc6 i, enc6 j, CHR ''='', CHR ''=''] =
     Some [char_of ((i mod 64 * 262144 + j mod 64 * 4096) div 65536)]"
  by (simp add: dec6_enc6 enc6_not_special Let_def)

lemma quantum3:
  fixes a b c :: char
  defines "v \<equiv> of_char a * 65536 + of_char b * 256 + (of_char c :: nat)"
  shows "(v div 262144) mod 64 * 262144 + (v div 4096) mod 64 * 4096
           + (v div 64) mod 64 * 64 + v mod 64 = v"
    and "char_of (v div 65536) = a" and "char_of (v div 256) = b" and "char_of v = c"
proof -
  have lt: "of_char a < (256::nat)" "of_char b < (256::nat)" "of_char c < (256::nat)"
    by simp_all
  note b3 = bytes3 [OF lt]
  show "(v div 262144) mod 64 * 262144 + (v div 4096) mod 64 * 4096
           + (v div 64) mod 64 * 64 + v mod 64 = v"
    unfolding v_def by (rule digits24) (rule b3(1))
  show "char_of (v div 65536) = a" unfolding v_def by (simp only: b3(2) char_of_char)
  have "char_of (v div 256) = char_of (v div 256 mod 256)" by simp
  then show "char_of (v div 256) = b" unfolding v_def by (simp only: b3(3) char_of_char)
  have "char_of v = char_of (v mod 256)" by simp
  then show "char_of v = c" unfolding v_def by (simp only: b3(4) char_of_char)
qed

lemma zero_low_digits:
  fixes q :: nat
  shows "(64 * q) mod 64 = 0" and "(4096 * q) mod 64 = 0" and "(4096 * q) div 64 mod 64 = 0"
proof -
  show "(64 * q) mod 64 = 0" by simp
  have "4096 * q = 64 * (64 * q)" by simp
  then show "(4096 * q) mod 64 = 0" by (simp only: mod_mult_self1_is_0)
  have "(4096 * q) div 64 = 64 * q" by simp
  then show "(4096 * q) div 64 mod 64 = 0" by simp
qed

lemma quantum2:
  fixes a b :: char
  defines "v \<equiv> of_char a * 65536 + of_char b * 256 + (0 :: nat)"
  shows "(v div 262144) mod 64 * 262144 + (v div 4096) mod 64 * 4096
           + (v div 64) mod 64 * 64 = v"
    and "char_of (v div 65536) = a" and "char_of (v div 256) = b"
proof -
  have lt: "of_char a < (256::nat)" "of_char b < (256::nat)" "(0::nat) < 256"
    by simp_all
  note b3 = bytes3 [OF lt]
  have "v = 64 * (of_char a * 1024 + of_char b * 4)" by (simp add: v_def)
  then have z: "v mod 64 = 0" by (simp only: zero_low_digits)
  have "(v div 262144) mod 64 * 262144 + (v div 4096) mod 64 * 4096
           + (v div 64) mod 64 * 64 + v mod 64 = v"
    unfolding v_def by (rule digits24) (rule b3(1))
  then show "(v div 262144) mod 64 * 262144 + (v div 4096) mod 64 * 4096
           + (v div 64) mod 64 * 64 = v" by (simp only: z add_0_right)
  show "char_of (v div 65536) = a" unfolding v_def by (simp only: b3(2) char_of_char)
  have "char_of (v div 256) = char_of (v div 256 mod 256)" by simp
  then show "char_of (v div 256) = b" unfolding v_def by (simp only: b3(3) char_of_char)
qed

lemma quantum1:
  fixes a :: char
  defines "v \<equiv> of_char a * 65536 + 0 * 256 + (0 :: nat)"
  shows "(v div 262144) mod 64 * 262144 + (v div 4096) mod 64 * 4096 = v"
    and "char_of (v div 65536) = a"
proof -
  have lt: "of_char a < (256::nat)" "(0::nat) < 256" "(0::nat) < 256"
    by simp_all
  note b3 = bytes3 [OF lt]
  have v: "v = 4096 * (of_char a * 16)" by (simp add: v_def)
  have z1: "v mod 64 = 0" and z2: "(v div 64) mod 64 = 0"
    by (simp_all only: v zero_low_digits)
  have "(v div 262144) mod 64 * 262144 + (v div 4096) mod 64 * 4096
           + (v div 64) mod 64 * 64 + v mod 64 = v"
    unfolding v_def by (rule digits24) (rule b3(1))
  then show "(v div 262144) mod 64 * 262144 + (v div 4096) mod 64 * 4096 = v"
    by (simp only: z1 z2 add_0_right mult_zero_left)
  show "char_of (v div 65536) = a" unfolding v_def by (simp only: b3(2) char_of_char)
qed

lemma decodeQuanta_EncodeToString: "decodeQuanta (EncodeToString s) = Some s"
proof (induction s rule: EncodeToString.induct)
  case (1 a b c rest)
  show ?case
    by (simp only: EncodeToString.simps Let_def decodeQuanta_full quantum3 "1.IH"
          option.map)
next
  case (2 a b)
  have "EncodeToString [a, b] =
      (let val = of_char a * 65536 + of_char b * 256 + (0::nat)
       in [enc6 (val div 262144), enc6 (val div 4096), enc6 (val div 64), CHR ''=''])"
    by simp
  then show ?case
    by (simp only: Let_def decodeQuanta_pad1 quantum2)
next
  case (3 a)
  have "EncodeToString [a] =
      (let val = of_char a * 65536 + 0 * 256 + (0::nat)
       in [enc6 (val div 262144), enc6 (val div 4096), CHR ''='', CHR ''=''])"
    by simp
  then show ?case
    by (simp only: Let_def decodeQuanta_pad2 quantum1)
next
  case 4
  then show ?case by simp
qed

lemma DecodeString_EncodeToString: "DecodeString (EncodeToString s) = Some s"
  by (simp add: DecodeString_def EncodeToString_no_newline decodeQuanta_EncodeToString)

section \<open>Storing and reading back through the file backend\<close>

lemma parse_modern_AuthConfigs:
  "\<not> legacyFormat pp \<Longrightarrow> parse w pp = Inr auths \<Longrightarrow> \<exists>al. AuthConfigs auths = Some al"
  by (auto simp: parse_def Unmarshal_def split: option.splits file_node.splits if_splits)

lemma getPathToAuth_files_update [simp]:
  "getPathToAuth (w\<lparr>files := f\<rparr>) sys = getPathToAuth w sys"
  by (simp add: getPathToAuth_def getPathToAuthWithOS_def Getenv_def
        cong del: option.case_cong_weak if_weak_cong)

lemma getAuthFilePaths_primary_first:
  "getPathToAuth w sys = Inr (pp, us) \<Longrightarrow> \<exists>ps. getAuthFilePaths w sys homeDir = pp # ps"
  by (simp add: getAuthFilePaths_def Let_def)

lemma Trim_unchanged:
  assumes "p = [] \<or> (hd p \<noteq> z \<and> last p \<noteq> z)"
  shows "Trim p [z] = p"
proof (cases "p = []")
  case True
  then show ?thesis by (simp add: Trim_def TrimLeft_def TrimRight_def)
next
  case False
  with assms have h: "hd p \<noteq> z" and l: "last p \<noteq> z" by auto
  from False h have 1: "dropWhile (\<lambda>c. c \<in> set [z]) p = p"
    by (cases p) auto
  from False l have "hd (rev p) \<noteq> z" by (simp add: hd_rev)
  with False have 2: "dropWhile (\<lambda>c. c \<in> set [z]) (rev p) = rev p"
    by (cases "rev p") auto
  from 1 2 show ?thesis by (simp add: Trim_def TrimLeft_def TrimRight_def)
qed

lemma Cut_first:
  "sep \<notin> set a \<Longrightarrow> Cut (a @ sep # b) sep = (a, b, True)"
  by (simp add: Cut_def IndexRune_first)

lemma decodeDockerAuth_encoded:
  assumes "CHR '':'' \<notin> set u" and "p = [] \<or> (hd p \<noteq> NUL \<and> last p \<noteq> NUL)"
  shows "decodeDockerAuth file key \<lparr>Auth = EncodeToString (u @ '':'' @ p), IdentityToken_conf = []\<rparr>
           = Inr \<lparr>Username = u, Password = p, IdentityToken = []\<rparr>"
  using Cut_first [OF assms(1), of p] Trim_unchanged [OF assms(2)]
  by (simp add: decodeDockerAuth_def DecodeString_EncodeToString)

lemma authKeysForKey_Cons: "\<exists>rest. authKeysForKey key = [] @ key # rest"
  by (subst authKeysForKey.simps) simp

lemma lookup_update_same: "lookup (Some (AList.update k v al)) k = Some v"
  by (simp add: lookup_def update_conv')

lemma modifyJSON_setEditor_writes:
  assumes "getPathToAuth w sys = Inr (pp, us)" and "\<not> legacyFormat pp"
    and "\<not> mkdir_fails w (Dir (path pp))" and "\<not> write_fails w (path pp)"
    and "parse w pp = Inr auths" and "lookup (CredHelpers auths) key = None"
    and "AuthConfigs auths = Some al"
  shows "modifyJSON sys (setEditor key ns username password) () w =
           (Inr (path pp), (),
            w\<lparr>files := (files w)(path pp \<mapsto> Readable (MarshalIndent w
                 (auths\<lparr>AuthConfigs := Some (AList.update key
                      \<lparr>Auth = EncodeToString (username @ '':'' @ password),
                       IdentityToken_conf = []\<rparr> al)\<rparr>)))\<rparr>)"
  using assms by (simp add: modifyJSON_def setEditor_def Let_def)

lemma lookup_entries_empty: "entries m = [] \<Longrightarrow> lookup m k = None"
  by (cases m) (simp_all add: entries_def lookup_def)

lemma teamWorld_primary:
  "getPathToAuth teamWorld None
     = Inr (\<lparr>path = ''/run/containers/1000/auth.json'', legacyFormat = False\<rparr>, False)"
  by (simp add: path_eval baseWorld_def teamWorld_def)

lemma baseWorld_primary:
  "getPathToAuth baseWorld None
     = Inr (\<lparr>path = ''/run/containers/1000/auth.json'', legacyFormat = False\<rparr>, False)"
  by (simp add: path_eval baseWorld_def)

text \<open>
  Claim C1, as the code has it. Let the key be valid, the context carry no inline
  credential, the file backend be the first helper, and the primary auth file be in the
  modern format, parse (or not exist), be writable, and name no credential helper for the
  key or for its registry. Let the user name contain no colon, the password neither
  begin nor end with a NUL byte, and not both be empty. Then \<open>SetCredentials\<close> succeeds
  by writing the primary file, and \<open>GetCredentials\<close> for the same key afterwards returns
  exactly that user name and password, with an empty identity token.
\<close>

theorem set_then_get:
  assumes key: "validateKey key = Inr ns"
    and utf8: "ValidString key"
    and nosys: "(case sys of None \<Rightarrow> None | Some s \<Rightarrow> DockerAuthConfig s) = None"
    and chain: "credentialHelpers w sys = Inr (AuthenticationFileHelper # rest)"
    and primary: "getPathToAuth w sys = Inr (pp, us)" "\<not> legacyFormat pp"
    and writable: "\<not> mkdir_fails w (Dir (path pp))" "\<not> write_fails w (path pp)"
    and parses: "parse w pp = Inr auths"
    and nohelper: "lookup (CredHelpers auths) key = None"
                  "lookup (CredHelpers auths) (registryOf key) = None"
    and user: "CHR '':'' \<notin> set username"
    and pass: "password = [] \<or> (hd password \<noteq> NUL \<and> last password \<noteq> NUL)"
    and nonempty: "\<not> (username = [] \<and> password = [])"
  shows "\<exists>w'. SetCredentials sys key username password w = (Inr (path pp), w')
           \<and> GetCredentials sys key w'
                = (Inr \<lparr>Username = username, Password = password, IdentityToken = []\<rparr>, w')"
proof -
  from parse_modern_AuthConfigs [OF primary(2) parses] obtain al
    where al: "AuthConfigs auths = Some al" by blast
  define entry where "entry = \<lparr>Auth = EncodeToString (username @ '':'' @ password),
                       IdentityToken_conf = []\<rparr>"
  define d where "d = auths\<lparr>AuthConfigs := Some (AList.update key entry al)\<rparr>"
  define w' where "w' = w\<lparr>files := (files w)(path pp \<mapsto> Readable (MarshalIndent w d))\<rparr>"
  define creds where "creds = \<lparr>Username = username, Password = password, IdentityToken = []\<rparr>"
  have m: "modifyJSON sys (setEditor key ns username password) () w = (Inr (path pp), (), w')"
    using modifyJSON_setEditor_writes [OF primary writable parses nohelper(1) al]
    by (simp add: w'_def d_def entry_def)
  have set: "SetCredentials sys key username password w = (Inr (path pp), w')"
    using key chain m by (simp add: SetCredentials_def)
  have "coerceAuthConfig entry = entry"
    by (simp add: coerceAuthConfig_def entry_def replaceInvalidUTF8_ascii EncodeToString_ascii)
  with canonicalDoc_parse [OF parses] al utf8 have cd: "canonicalDoc d"
    by (simp add: d_def canonicalDoc_def entries_def canonicalMap_update)
  from parse_after_write [OF primary(2) cd, of w] obtain auths' where
    p': "parse w' pp = Inr auths'"
    and la: "lookup (AuthConfigs auths') = lookup (AuthConfigs d)"
    and lc: "lookup (CredHelpers auths') = lookup (CredHelpers d)"
    unfolding w'_def by blast
  have ch: "lookup (CredHelpers auths') (registryOf key) = None"
    using nohelper(2) lc by (simp add: d_def)
  have lk: "lookup (AuthConfigs auths') key = Some entry"
    using la by (simp add: d_def lookup_update_same)
  from authKeysForKey_Cons [of key] obtain ks' where
    ks: "authKeysForKey key = [] @ key # ks'" by blast
  have cand: "(if legacyFormat pp then [registryOf key] else authKeysForKey key) = [] @ key # ks'"
    using primary(2) ks by simp
  have "findCredentialsInFile key (registryOf key) pp w' = (decodeDockerAuth (path pp) key entry, w')"
    by (rule findCredentialsInFile_candidate [OF p' ch cand _ lk]) simp
  then have f: "findCredentialsInFile key (registryOf key) pp w' = (Inr creds, w')"
    using decodeDockerAuth_encoded [OF user pass] by (simp add: entry_def creds_def)
  have ne: "creds \<noteq> noCredentials"
    using nonempty by (auto simp: creds_def noCredentials_def)
  have "getPathToAuth w' sys = Inr (pp, us)" using primary(1) by (simp add: w'_def)
  from getAuthFilePaths_primary_first [OF this, of "homedir w'"] obtain ps
    where ps: "getAuthFilePaths w' sys (homedir w') = pp # ps" by blast
  have chain': "credentialHelpers w' sys = Inr (AuthenticationFileHelper # rest)"
    using chain by (simp add: w'_def)
  have "GetCredentials sys key w' = (Inr creds, w')"
    using key nosys chain' ps f ne
    by (simp add: GetCredentials_def getCredentialsWithHomeDir_def)
  with set show ?thesis by (auto simp: creds_def)
qed

text \<open>
  Claim C1 as stated holds for every user name and password. On the sample host, storing
  the user name \<open>a:b\<close> with the password \<open>c\<close> under \<open>quay.io\<close> succeeds, and reading
  \<open>quay.io\<close> back gives the user name \<open>a\<close> and the password \<open>b:c\<close>: the stored string
  is cut at its first colon.
\<close>

theorem set_then_get_counterexample:
  "validateKey ''quay.io'' = Inr False
   \<and> fst (SetCredentials None ''quay.io'' ''a:b'' ''c'' baseWorld)
       = Inr ''/run/containers/1000/auth.json''
   \<and> fst (GetCredentials None ''quay.io''
            (snd (SetCredentials None ''quay.io'' ''a:b'' ''c'' baseWorld)))
       = Inr \<lparr>Username = ''a'', Password = ''b:c'', IdentityToken = []\<rparr>
   \<and> \<lparr>Username = ''a'', Password = ''b:c'', IdentityToken = []\<rparr>
       \<noteq> \<lparr>Username = ''a:b'', Password = ''c'', IdentityToken = []\<rparr>"
proof -
  define pp where "pp = \<lparr>path = ''/run/containers/1000/auth.json'', legacyFormat = False\<rparr>"
  define auths where "auths = \<lparr>AuthConfigs = Some [], CredHelpers = None\<rparr>"
  define entry where "entry = \<lparr>Auth = EncodeToString (''a:b'' @ '':'' @ ''c''), IdentityToken_conf = []\<rparr>"
  define d where "d = auths\<lparr>AuthConfigs := Some (AList.update ''quay.io'' entry [])\<rparr>"
  define w' where "w' = baseWorld\<lparr>files := (files baseWorld)(path pp \<mapsto> Readable (MarshalIndent baseWorld d))\<rparr>"
  have key: "validateKey ''quay.io'' = Inr False"
    by (simp add: validateKey_def HasPrefix_def ContainsRune_def)
  have primary: "getPathToAuth baseWorld None = Inr (pp, False)" "\<not> legacyFormat pp"
    using baseWorld_primary by (simp_all add: pp_def)
  have writable: "\<not> mkdir_fails baseWorld (Dir (path pp))" "\<not> write_fails baseWorld (path pp)"
    by (simp_all add: baseWorld_def)
  have parses: "parse baseWorld pp = Inr auths"
    by (simp add: parse_def baseWorld_def pp_def auths_def)
  have nohelper: "lookup (CredHelpers auths) ''quay.io'' = None"
    by (simp add: auths_def lookup_def)
  have al: "AuthConfigs auths = Some []" by (simp add: auths_def)
  have m: "modifyJSON None (setEditor ''quay.io'' False ''a:b'' ''c'') () baseWorld
             = (Inr (path pp), (), w')"
    using modifyJSON_setEditor_writes [OF primary writable parses nohelper al, of False "''a:b''" "''c''"]
    by (simp add: w'_def d_def entry_def)
  have chain: "credentialHelpers baseWorld None = Inr [AuthenticationFileHelper]"
    by (simp add: baseWorld_def)
  have set: "SetCredentials None ''quay.io'' ''a:b'' ''c'' baseWorld = (Inr (path pp), w')"
    using key chain m by (simp add: SetCredentials_def)
  have "coerceAuthConfig entry = entry"
    by (simp add: coerceAuthConfig_def entry_def replaceInvalidUTF8_ascii EncodeToString_ascii
          del: EncodeToString.simps)
  then have cd: "canonicalDoc d"
    by (simp add: d_def auths_def canonicalDoc_def entries_def canonicalMap_def
          ValidString_ascii)
  from parse_after_write [OF primary(2) cd, of baseWorld] obtain auths' where
    p': "parse w' pp = Inr auths'"
    and la: "lookup (AuthConfigs auths') = lookup (AuthConfigs d)"
    and lc: "lookup (CredHelpers auths') = lookup (CredHelpers d)"
    unfolding w'_def by blast
  have ch: "lookup (CredHelpers auths') ''quay.io'' = None"
    using lc by (simp add: d_def auths_def lookup_def)
  have lk: "lookup (AuthConfigs auths') ''quay.io'' = Some entry"
    using la by (simp add: d_def lookup_def)
  have cand: "(if legacyFormat pp then [''quay.io''] else authKeysForKey ''quay.io'') = [] @ ''quay.io'' # []"
    by (simp add: pp_def authKeysForKey.simps)
  have dec: "decodeDockerAuth (path pp) ''quay.io'' entry
               = Inr \<lparr>Username = ''a'', Password = ''b:c'', IdentityToken = []\<rparr>"
    by (simp add: decodeDockerAuth_def entry_def DecodeString_EncodeToString Cut_def
          Trim_def TrimLeft_def TrimRight_def NUL_def del: EncodeToString.simps)
  have "findCredentialsInFile ''quay.io'' ''quay.io'' pp w'
          = (decodeDockerAuth (path pp) ''quay.io'' entry, w')"
    by (rule findCredentialsInFile_candidate [OF p' ch cand _ lk]) simp
  with dec have f: "findCredentialsInFile ''quay.io'' ''quay.io'' pp w'
          = (Inr \<lparr>Username = ''a'', Password = ''b:c'', IdentityToken = []\<rparr>, w')" by simp
  have "getPathToAuth w' None = Inr (pp, False)" using primary(1) by (simp add: w'_def)
  from getAuthFilePaths_primary_first [OF this, of "homedir w'"] obtain ps
    where ps: "getAuthFilePaths w' None (homedir w') = pp # ps" by blast
  have chain': "credentialHelpers w' None = Inr [AuthenticationFileHelper]"
    by (simp add: w'_def baseWorld_def)
  have r: "registryOf ''quay.io'' = ''quay.io''" by (simp add: registryOf_def)
  have "GetCredentials None ''quay.io'' w'
          = (Inr \<lparr>Username = ''a'', Password = ''b:c'', IdentityToken = []\<rparr>, w')"
    using key chain' ps f r
    by (simp add: GetCredentials_def getCredentialsWithHomeDir_def noCredentials_def)
  with set key show ?thesis by (simp add: pp_def)
qed

text \<open>
  The amended claim C1 on the sample file: a new password for \<open>quay.io/team\<close> is read
  back.
\<close>

theorem set_then_get_witness:
  "\<exists>w'. SetCredentials None ''quay.io/team'' ''bob'' ''s3cret'' teamWorld
            = (Inr ''/run/containers/1000/auth.json'', w')
        \<and> GetCredentials None ''quay.io/team'' w'
            = (Inr \<lparr>Username = ''bob'', Password = ''s3cret'', IdentityToken = []\<rparr>, w')"
proof -
  define pp where "pp = \<lparr>path = ''/run/containers/1000/auth.json'', legacyFormat = False\<rparr>"
  define auths where "auths =
     \<lparr>AuthConfigs =
        Some [(''https://quay.io/v1/'', \<lparr>Auth = ''Y2Fyb2w6cjM='', IdentityToken_conf = []\<rparr>),
              (''quay.io'', \<lparr>Auth = ''YWxpY2U6cjE='', IdentityToken_conf = []\<rparr>),
              (''quay.io/team'', \<lparr>Auth = ''Ym9iOnIy'', IdentityToken_conf = []\<rparr>)],
      CredHelpers = Some []\<rparr>"
  have key: "validateKey ''quay.io/team'' = Inr True"
    by (simp add: validateKey_def HasPrefix_def ContainsRune_def)
  have utf8: "ValidString ''quay.io/team''"
    by (simp add: ValidString_ascii)
  have nosys: "(case None :: SystemContext option of None \<Rightarrow> None | Some s \<Rightarrow> DockerAuthConfig s) = None"
    by simp
  have chain: "credentialHelpers teamWorld None = Inr (AuthenticationFileHelper # [])"
    by (simp add: teamWorld_def baseWorld_def)
  have primary: "getPathToAuth teamWorld None = Inr (pp, False)" "\<not> legacyFormat pp"
    using teamWorld_primary by (simp_all add: pp_def)
  have writable: "\<not> mkdir_fails teamWorld (Dir (path pp))" "\<not> write_fails teamWorld (path pp)"
    by (simp_all add: teamWorld_def baseWorld_def)
  have parses: "parse teamWorld pp = Inr auths"
    by (simp add: parse_def teamWorld_def pp_def auths_def json_eval)
  have nohelper: "lookup (CredHelpers auths) ''quay.io/team'' = None"
                 "lookup (CredHelpers auths) (registryOf ''quay.io/team'') = None"
    by (simp_all add: auths_def lookup_def)
  have user: "CHR '':'' \<notin> set ''bob''" by simp
  have pass: "''s3cret'' = [] \<or> (hd ''s3cret'' \<noteq> NUL \<and> last ''s3cret'' \<noteq> NUL)"
    by (simp add: NUL_def)
  have nonempty: "\<not> (''bob'' = [] \<and> ''s3cret'' = [])" by simp
  from set_then_get [OF key utf8 nosys chain primary writable parses nohelper user pass nonempty]
  show ?thesis by (simp add: pp_def)
qed

section \<open>Removing credentials\<close>

lemma sameHost_refl [simp]: "sameHost w w"
  by (simp add: sameHost_def)


lemma sameHost_files_update [simp]: "sameHost w (w'\<lparr>files := f\<rparr>) = sameHost w w'"
  by (simp add: sameHost_def)


lemma parse_files: "files w' = files w \<Longrightarrow> parse w' p = parse w p"
  by (simp add: parse_def)

























end
